theory Spec2Isabelle
  imports Complex_Main "HOL-Library.Multiset" "HOL-Library.Sublist"
begin

section \<open>Python values and list operations used by the pipeline\<close>

text \<open>
  Font sizes are finite Python floats; a finite float is the \<^typ>\<open>real\<close> number it stands
  for. Page numbers are Python ints.
\<close>

datatype pyval = PStr string | PInt int | PFloat real

text \<open>A Python dict literal, as the list of its items in insertion order.\<close>

type_synonym pydict = "(string \<times> pyval) list"

text \<open>
  \<^verbatim>\<open>list.sort(key=f, reverse=True)\<close> and \<^verbatim>\<open>sorted(xs, key=f, reverse=True)\<close>:
  CPython reverses the list, sorts it stably in ascending order and reverses the result, so
  that elements with equal keys keep their original order.
\<close>

definition py_sort_reverse :: "('a \<Rightarrow> 'k::linorder) \<Rightarrow> 'a list \<Rightarrow> 'a list" where
  "py_sort_reverse f xs = rev (sort_key f (rev xs))"

section \<open>Round 1A: outline\_extractor.py, \_refine\_heading\_hierarchy\<close>

text \<open>
  A heading as \<^verbatim>\<open>_extract_headings\<close> builds it:
  \<^verbatim>\<open>{"level": ..., "text": ..., "page": ..., "font_size": ...}\<close>.
\<close>

record heading =
  level :: string
  heading_text :: string
  page :: int
  font_size :: real

text \<open>
  \<^verbatim>\<open>unique_font_sizes = sorted(list(set(h["font_size"] for h in headings)), reverse=True)\<close>.
  The iteration order of the set is immaterial, because the values are distinct
  (lemma \<open>unique_font_sizes_any_order\<close> below).
\<close>

definition unique_font_sizes :: "heading list \<Rightarrow> real list" where
  "unique_font_sizes headings = py_sort_reverse (\<lambda>x. x) (remdups (map font_size headings))"

text \<open>
  \<^verbatim>\<open>
  font_to_level = {}
  for i, font_size in enumerate(unique_font_sizes[:3]):
      if i == 0:   font_to_level[font_size] = "H1"
      elif i == 1: font_to_level[font_size] = "H2"
      else:        font_to_level[font_size] = "H3"
  \<close>
\<close>

definition level_at :: "nat \<Rightarrow> string" where
  "level_at i = (if i = 0 then ''H1'' else if i = 1 then ''H2'' else ''H3'')"

definition font_to_level :: "real list \<Rightarrow> (real \<rightharpoonup> string)" where
  "font_to_level sizes =
     fold (\<lambda>(i, fs) m. m(fs \<mapsto> level_at i)) (enumerate 0 (take 3 sizes)) Map.empty"

text \<open>\<^verbatim>\<open>font_to_level.get(heading["font_size"], "H3")\<close>\<close>

definition get_level :: "(real \<rightharpoonup> string) \<Rightarrow> real \<Rightarrow> string" where
  "get_level m fs = (case m fs of Some l \<Rightarrow> l | None \<Rightarrow> ''H3'')"

text \<open>The dict appended to \<^verbatim>\<open>refined_headings\<close>: three keys, no font size.\<close>

definition outline_entry :: "string \<Rightarrow> heading \<Rightarrow> pydict" where
  "outline_entry lvl h = [(''level'', PStr lvl), (''text'', PStr (heading_text h)), (''page'', PInt (page h))]"

text \<open>
  \<^verbatim>\<open>x["page"]\<close>, the sort key. Every entry built by \<open>outline_entry\<close> has an int under
  that key; the other branches stand for Python's KeyError and are never taken.
\<close>

definition entry_page :: "pydict \<Rightarrow> int" where
  "entry_page e = (case map_of e ''page'' of Some (PInt p) \<Rightarrow> p | _ \<Rightarrow> 0)"

definition entry_level :: "pydict \<Rightarrow> string" where
  "entry_level e = (case map_of e ''level'' of Some (PStr l) \<Rightarrow> l | _ \<Rightarrow> [])"

definition entry_text :: "pydict \<Rightarrow> string" where
  "entry_text e = (case map_of e ''text'' of Some (PStr t) \<Rightarrow> t | _ \<Rightarrow> [])"

text \<open>
  The loop that applies the refined levels, giving the list \<^verbatim>\<open>refined_headings\<close> before
  it is sorted.
\<close>

definition refined_headings :: "heading list \<Rightarrow> pydict list" where
  "refined_headings headings =
     (let m = font_to_level (unique_font_sizes headings)
      in map (\<lambda>h. outline_entry (get_level m (font_size h)) h) headings)"

definition refine_heading_hierarchy :: "heading list \<Rightarrow> pydict list" where
  "refine_heading_hierarchy headings =
     (if headings = [] then []
      else take 50 (sort_key entry_page (refined_headings headings)))"

text \<open>The headings of the repository's own test of the refinement, and a one-heading list.\<close>

definition mock_headings :: "heading list" where
  "mock_headings =
     [\<lparr>level = ''H1'', heading_text = ''Chapter 1'', page = 1, font_size = 16\<rparr>,
      \<lparr>level = ''H2'', heading_text = ''Section 1.1'', page = 1, font_size = 14\<rparr>,
      \<lparr>level = ''H3'', heading_text = ''Subsection 1.1.1'', page = 2, font_size = 12\<rparr>,
      \<lparr>level = ''H1'', heading_text = ''Chapter 2'', page = 3, font_size = 16\<rparr>]"

definition single_heading :: "heading list" where
  "single_heading = [\<lparr>level = ''H1'', heading_text = ''Title'', page = 1, font_size = 14\<rparr>]"

text \<open>
  Fifty small headings on page 1 followed by one large heading on page 2: the cut to 50
  entries drops the only heading of the largest size.
\<close>

definition long_headings :: "heading list" where
  "long_headings =
     replicate 50 \<lparr>level = ''H2'', heading_text = ''Item'', page = 1, font_size = 12\<rparr>
     @ [\<lparr>level = ''H1'', heading_text = ''Appendix'', page = 2, font_size = 16\<rparr>]"

text \<open>
  The level the specification assigns to a size \<open>s\<close> from the set \<open>S\<close> of all sizes:
  largest distinct size H1, second largest H2, everything else H3.
\<close>

definition spec_level :: "real set \<Rightarrow> real \<Rightarrow> string" where
  "spec_level S s =
     (if s = Max S then ''H1''
      else if S - {Max S} \<noteq> {} \<and> s = Max (S - {Max S}) then ''H2''
      else ''H3'')"

text \<open>
  The headings that survive refinement, in output order and with their font sizes: the
  input sorted stably by page and cut to 50.
\<close>

definition kept_headings :: "heading list \<Rightarrow> heading list" where
  "kept_headings headings = take 50 (sort_key page headings)"

section \<open>Python strings, floats and the interpreter\<close>

text \<open>
  A Python \<^verbatim>\<open>str\<close> is the list of its code points, and \<^verbatim>\<open>len\<close> counts them. \<open>ustr\<close>
  turns an ASCII literal into such a list.
\<close>

type_synonym pystr = "nat list"

definition ustr :: "string \<Rightarrow> pystr" where
  "ustr s = map of_char s"

text \<open>
  What the code takes from the interpreter is a parameter of the model, so that every
  statement below holds for the Unicode database and the float arithmetic of any Python:
  \<^item> the character properties behind \<^verbatim>\<open>str.isspace\<close> (also \<^verbatim>\<open>str.strip\<close> and \<^verbatim>\<open>\s\<close>),
    \<^verbatim>\<open>str.isupper\<close>, \<^verbatim>\<open>str.islower\<close>, the title-case letters, \<^verbatim>\<open>str.isdecimal\<close>
    (\<^verbatim>\<open>\d\<close>) and \<^verbatim>\<open>str.isalnum\<close> (\<^verbatim>\<open>\w\<close> without the underscore);
  \<^item> \<^verbatim>\<open>str.lower\<close>, a function of the whole string (it is not character-wise);
  \<^item> the float quotient \<^verbatim>\<open>a / b\<close>, the float \<^verbatim>\<open>sum\<close> of a list, and the float that
    the literal \<^verbatim>\<open>1.1\<close> denotes. A finite float is the real number it stands for.
\<close>

record runtime =
  uc_isspace :: "nat \<Rightarrow> bool"
  uc_isupper :: "nat \<Rightarrow> bool"
  uc_islower :: "nat \<Rightarrow> bool"
  uc_istitle :: "nat \<Rightarrow> bool"
  uc_isdecimal :: "nat \<Rightarrow> bool"
  uc_isalnum :: "nat \<Rightarrow> bool"
  uc_lower :: "pystr \<Rightarrow> pystr"
  fl_div :: "real \<Rightarrow> real \<Rightarrow> real"
  fl_sum :: "real list \<Rightarrow> real"
  fl_1_1 :: real

text \<open>\<^verbatim>\<open>\w\<close>: an alphanumeric character or the underscore.\<close>

definition is_word :: "runtime \<Rightarrow> nat \<Rightarrow> bool" where
  "is_word py c \<longleftrightarrow> uc_isalnum py c \<or> c = of_char CHR ''_''"

text \<open>\<^verbatim>\<open>[A-Z]\<close>: the code points from A to Z.\<close>

definition is_A_to_Z :: "nat \<Rightarrow> bool" where
  "is_A_to_Z c \<longleftrightarrow> of_char CHR ''A'' \<le> c \<and> c \<le> of_char CHR ''Z''"

text \<open>\<^verbatim>\<open>s.lower()\<close>\<close>

definition lower :: "runtime \<Rightarrow> pystr \<Rightarrow> pystr" where
  "lower py s = uc_lower py s"

text \<open>\<^verbatim>\<open>s.strip()\<close>\<close>

definition strip :: "runtime \<Rightarrow> pystr \<Rightarrow> pystr" where
  "strip py s = rev (dropWhile (uc_isspace py) (rev (dropWhile (uc_isspace py) s)))"

text \<open>
  \<^verbatim>\<open>s.isupper()\<close>, as CPython computes it: a string of one character is upper-case when
  the character is; otherwise there must be an upper-case character and no lower-case or
  title-case character.
\<close>

definition isupper :: "runtime \<Rightarrow> pystr \<Rightarrow> bool" where
  "isupper py s \<longleftrightarrow>
     (if length s = 1 then uc_isupper py (hd s)
      else list_ex (uc_isupper py) s \<and> \<not> list_ex (\<lambda>c. uc_islower py c \<or> uc_istitle py c) s)"

text \<open>
  \<^verbatim>\<open>s.istitle()\<close>, as CPython scans it: an upper-case or title-case character may not
  follow a cased one, a lower-case character must follow a cased one, and there must be a
  cased character. The first flag is \<^verbatim>\<open>previous_is_cased\<close>, the second \<^verbatim>\<open>cased\<close>.
\<close>

fun istitle_scan :: "runtime \<Rightarrow> bool \<Rightarrow> bool \<Rightarrow> pystr \<Rightarrow> bool" where
  "istitle_scan py previous_is_cased cased [] = cased"
| "istitle_scan py previous_is_cased cased (c # cs) =
     (if uc_isupper py c \<or> uc_istitle py c then
        (if previous_is_cased then False else istitle_scan py True True cs)
      else if uc_islower py c then
        (if \<not> previous_is_cased then False else istitle_scan py True True cs)
      else istitle_scan py False cased cs)"

definition istitle :: "runtime \<Rightarrow> pystr \<Rightarrow> bool" where
  "istitle py s = istitle_scan py False False s"

text \<open>
  Title case in the words of the Python documentation: there is a cased character,
  upper-case (or title-case) characters follow only uncased characters, and lower-case
  characters follow only cased ones. Each character is paired with the fact whether the
  character before it is cased.
\<close>

definition cased :: "runtime \<Rightarrow> nat \<Rightarrow> bool" where
  "cased py c \<longleftrightarrow> uc_isupper py c \<or> uc_istitle py c \<or> uc_islower py c"

definition spec_titlecase :: "runtime \<Rightarrow> pystr \<Rightarrow> bool" where
  "spec_titlecase py s \<longleftrightarrow>
     list_ex (cased py) s \<and>
     (\<forall>(after_cased, c) \<in> set (zip (False # map (cased py) s) s).
        (uc_isupper py c \<or> uc_istitle py c \<longrightarrow> \<not> after_cased) \<and>
        (\<not> (uc_isupper py c \<or> uc_istitle py c) \<and> uc_islower py c \<longrightarrow> after_cased))"

text \<open>\<^verbatim>\<open>s.endswith(t)\<close>\<close>

definition endswith :: "pystr \<Rightarrow> pystr \<Rightarrow> bool" where
  "endswith s t \<longleftrightarrow> prefix (rev t) (rev s)"

text \<open>\<^verbatim>\<open>a in b\<close> for strings: \<open>a\<close> occurs in \<open>b\<close> as a contiguous substring.\<close>

fun py_in :: "pystr \<Rightarrow> pystr \<Rightarrow> bool" where
  "py_in a [] \<longleftrightarrow> a = []"
| "py_in a (c # cs) \<longleftrightarrow> prefix a (c # cs) \<or> py_in a cs"

text \<open>\<^verbatim>\<open>s.split(sep)\<close> for a one-character separator; never the empty list.\<close>

fun split :: "nat \<Rightarrow> pystr \<Rightarrow> pystr list" where
  "split sep [] = [[]]"
| "split sep (c # cs) =
     (if c = sep then [] # split sep cs
      else (case split sep cs of
              w # ws \<Rightarrow> (c # w) # ws
            | [] \<Rightarrow> [[c]]))"

text \<open>\<^verbatim>\<open>sep.join(xs)\<close>\<close>

fun join :: "pystr \<Rightarrow> pystr list \<Rightarrow> pystr" where
  "join sep [] = []"
| "join sep [x] = x"
| "join sep (x # y # ys) = x @ sep @ join sep (y # ys)"

text \<open>The decimal numeral of a natural number, as \<^verbatim>\<open>f"{n}"\<close> prints it.\<close>

definition digit_char :: "nat \<Rightarrow> nat" where
  "digit_char d = of_char CHR ''0'' + d"

function str_of_nat :: "nat \<Rightarrow> pystr" where
  "str_of_nat n = (if n < 10 then [digit_char n] else str_of_nat (n div 10) @ [digit_char (n mod 10)])"
  by pat_completeness auto
termination
  by (relation "measure (\<lambda>n. n)") auto

text \<open>
  A Python float that may be NaN. The comparisons of Python are false as soon as one
  side is NaN.
\<close>

datatype pyfloat = Num real | NaN

fun float_lt :: "pyfloat \<Rightarrow> pyfloat \<Rightarrow> bool" where
  "float_lt (Num a) (Num b) \<longleftrightarrow> a < b"
| "float_lt _ _ \<longleftrightarrow> False"


fun the_num :: "pyfloat \<Rightarrow> real" where
  "the_num (Num a) = a"
| "the_num NaN = 0"

text \<open>
  \<^verbatim>\<open>xs.sort(key=f, reverse=True)\<close> with float keys. Without a NaN key the keys are
  totally ordered and the result is the stable descending sort. With a NaN key the
  comparisons are inconsistent: when no key of the reversed list is less than its
  predecessor, the run detection of the sort takes the whole list for one ascending run
  and leaves it as it is; any other case depends on the binary insertion and the merges
  of the sort and is not modelled (\<open>None\<close>).
\<close>

fun one_run :: "pyfloat list \<Rightarrow> bool" where
  "one_run (a # b # ks) \<longleftrightarrow> \<not> float_lt b a \<and> one_run (b # ks)"
| "one_run ks \<longleftrightarrow> True"

definition sort_reverse_floats :: "('a \<Rightarrow> pyfloat) \<Rightarrow> 'a list \<Rightarrow> 'a list option" where
  "sort_reverse_floats f xs =
     (if NaN \<notin> set (map f xs) then Some (py_sort_reverse (\<lambda>x. the_num (f x)) xs)
      else if one_run (rev (map f xs)) then Some xs
      else None)"

section \<open>Regular expressions of the heading patterns\<close>

text \<open>
  The three patterns are sequences of character classes, each taken once or one or more
  times. \<open>consume\<close> lists the remainders of the input after every way an item can match
  at its start, longest match first, as the backtracking matcher tries them;
  \<^verbatim>\<open>re.match\<close> succeeds when some way of matching every item exists.
\<close>

datatype rx = One "nat \<Rightarrow> bool" | Many1 "nat \<Rightarrow> bool"

fun many1 :: "(nat \<Rightarrow> bool) \<Rightarrow> pystr \<Rightarrow> pystr list" where
  "many1 p [] = []"
| "many1 p (c # cs) = (if p c then many1 p cs @ [cs] else [])"

fun consume :: "rx \<Rightarrow> pystr \<Rightarrow> pystr list" where
  "consume (One p) [] = []"
| "consume (One p) (c # cs) = (if p c then [cs] else [])"
| "consume (Many1 p) s = many1 p s"

primrec re_match :: "rx list \<Rightarrow> pystr \<Rightarrow> bool" where
  "re_match [] s = True"
| "re_match (r # rs) s = list_ex (re_match rs) (consume r s)"

text \<open>
  \<^verbatim>\<open>
  heading_patterns = [
      r'^\d+[\.\)]\s+',   # 1. or 1)
      r'^[A-Z]+[\.\s]+',  # CHAPTER or SECTION
      r'^\w+\s+\d+',      # Chapter 1
  ]
  \<close>
\<close>

definition heading_patterns :: "runtime \<Rightarrow> rx list list" where
  "heading_patterns py =
     [[Many1 (uc_isdecimal py),
       One (\<lambda>c. c = of_char CHR ''.'' \<or> c = of_char CHR '')''),
       Many1 (uc_isspace py)],
      [Many1 is_A_to_Z, Many1 (\<lambda>c. c = of_char CHR ''.'' \<or> uc_isspace py c)],
      [Many1 (is_word py), Many1 (uc_isspace py), Many1 (uc_isdecimal py)]]"

section \<open>text\_utils.py: TextProcessor\<close>

text \<open>
  \<^verbatim>\<open>is_likely_heading\<close>. The score is accumulated in the order of the source; the ratio
  is \<^verbatim>\<open>font_size / avg_font_size if avg_font_size > 0 else 1\<close>, a float quotient, and it
  is compared with the float \<^verbatim>\<open>1.1\<close>.
\<close>

definition font_size_ratio :: "runtime \<Rightarrow> real \<Rightarrow> real \<Rightarrow> real" where
  "font_size_ratio py fs avg_font_size =
     (if avg_font_size > 0 then fl_div py fs avg_font_size else 1)"

definition matches_pattern :: "runtime \<Rightarrow> pystr \<Rightarrow> bool" where
  "matches_pattern py txt =
     list_ex (\<lambda>pattern. re_match pattern (strip py txt)) (heading_patterns py)"

definition heading_score :: "runtime \<Rightarrow> pystr \<Rightarrow> real \<Rightarrow> real \<Rightarrow> nat" where
  "heading_score py txt fs avg_font_size =
     (let is_larger_font = font_size_ratio py fs avg_font_size > fl_1_1 py;
          is_short = length txt < 100;
          is_capitalized = isupper py txt \<or> istitle py txt;
          ends_with_colon = endswith (strip py txt) (ustr '':'');
          score = 0;
          score = (if is_larger_font then score + 2 else score);
          score = (if is_short then score + 1 else score);
          score = (if is_capitalized then score + 1 else score);
          score = (if ends_with_colon then score + 1 else score);
          score = (if matches_pattern py txt then score + 2 else score)
      in score)"

definition is_likely_heading :: "runtime \<Rightarrow> pystr \<Rightarrow> real \<Rightarrow> real \<Rightarrow> bool" where
  "is_likely_heading py txt fs avg_font_size =
     (if txt = [] \<or> length (strip py txt) < 3 then False
      else heading_score py txt fs avg_font_size \<ge> 3)"

text \<open>
  The three heading patterns in the words of the specification: digits, then a dot or a
  closing parenthesis, then white space; capital letters A to Z, then dots or white space;
  a word, white space, digits. Each is anchored at the start of the text.
\<close>

definition spec_numbered :: "runtime \<Rightarrow> pystr \<Rightarrow> bool" where
  "spec_numbered py t \<longleftrightarrow>
     (\<exists>ds c ws r. t = ds @ c # ws @ r \<and> ds \<noteq> [] \<and> list_all (uc_isdecimal py) ds \<and>
        (c = of_char CHR ''.'' \<or> c = of_char CHR '')'') \<and>
        ws \<noteq> [] \<and> list_all (uc_isspace py) ws)"

definition spec_capitals :: "runtime \<Rightarrow> pystr \<Rightarrow> bool" where
  "spec_capitals py t \<longleftrightarrow>
     (\<exists>us ps r. t = us @ ps @ r \<and> us \<noteq> [] \<and> list_all is_A_to_Z us \<and>
        ps \<noteq> [] \<and> list_all (\<lambda>c. c = of_char CHR ''.'' \<or> uc_isspace py c) ps)"

definition spec_word_number :: "runtime \<Rightarrow> pystr \<Rightarrow> bool" where
  "spec_word_number py t \<longleftrightarrow>
     (\<exists>w ws ds r. t = w @ ws @ ds @ r \<and> w \<noteq> [] \<and> list_all (is_word py) w \<and>
        ws \<noteq> [] \<and> list_all (uc_isspace py) ws \<and> ds \<noteq> [] \<and> list_all (uc_isdecimal py) ds)"

text \<open>
  The stripped form of a text in the words of the specification: the text without its
  leading and trailing white space.
\<close>

definition spec_stripped :: "runtime \<Rightarrow> pystr \<Rightarrow> pystr \<Rightarrow> bool" where
  "spec_stripped py s t \<longleftrightarrow>
     (\<exists>a b. s = a @ t @ b \<and> list_all (uc_isspace py) a \<and> list_all (uc_isspace py) b \<and>
        (t = [] \<or> \<not> uc_isspace py (hd t) \<and> \<not> uc_isspace py (last t)))"

text \<open>The points of the specification, added up.\<close>

definition spec_points :: "runtime \<Rightarrow> pystr \<Rightarrow> real \<Rightarrow> real \<Rightarrow> nat" where
  "spec_points py txt fs avg =
     (if fl_div py fs avg > fl_1_1 py then 2 else 0)
     + (if length txt < 100 then 1 else 0)
     + (if isupper py txt \<or> istitle py txt then 1 else 0)
     + (if strip py txt \<noteq> [] \<and> last (strip py txt) = of_char CHR '':'' then 1 else 0)
     + (if spec_numbered py (strip py txt) \<or> spec_capitals py (strip py txt)
           \<or> spec_word_number py (strip py txt)
        then 2 else 0)"

text \<open>
  \<^verbatim>\<open>clean_text\<close>: \<^verbatim>\<open>re.sub(r'\s+', ' ', text)\<close> replaces every maximal run of white space
  by one space; \<^verbatim>\<open>re.sub(r'[^\w\s\.\,\!\?\:\;\-\(\)]', ' ', text)\<close> replaces every other
  character outside the listed class by a space; the result is stripped.
\<close>

function collapse_spaces :: "runtime \<Rightarrow> pystr \<Rightarrow> pystr" where
  "collapse_spaces py [] = []"
| "collapse_spaces py (c # cs) =
     (if uc_isspace py c
      then of_char CHR '' '' # collapse_spaces py (dropWhile (uc_isspace py) cs)
      else c # collapse_spaces py cs)"
  by pat_completeness auto
termination
  by (relation "measure (\<lambda>(py, s). length s)") (auto simp: length_dropWhile_le less_Suc_eq_le)

definition is_kept :: "runtime \<Rightarrow> nat \<Rightarrow> bool" where
  "is_kept py c \<longleftrightarrow> is_word py c \<or> uc_isspace py c \<or> c \<in> set (ustr ''.,!?:;-()'')"

definition clean_text :: "runtime \<Rightarrow> pystr \<Rightarrow> pystr" where
  "clean_text py txt =
     (if txt = [] then []
      else strip py (map (\<lambda>c. if is_kept py c then c else of_char CHR '' '')
                       (collapse_spaces py txt)))"

text \<open>
  A spaCy token, with the attributes that \<^verbatim>\<open>extract_keywords\<close> reads. The loaded
  pipeline \<^verbatim>\<open>self.nlp\<close> is a parameter of the model: a function from a text to its tokens,
  or \<open>None\<close> when the model could not be loaded.
\<close>

record token =
  token_text :: pystr
  token_lemma :: pystr
  is_alpha :: bool
  is_stop :: bool
  is_punct :: bool

type_synonym language = "pystr \<Rightarrow> token list"

text \<open>
  \<^verbatim>\<open>collections.Counter\<close>: the items in order of first insertion, with their counts.
  \<^verbatim>\<open>most_common(n)\<close> is \<^verbatim>\<open>sorted(items, key=count, reverse=True)[:n]\<close>.
\<close>

fun counter_add :: "'a \<Rightarrow> ('a \<times> nat) list \<Rightarrow> ('a \<times> nat) list" where
  "counter_add k [] = [(k, 1)]"
| "counter_add k ((k', n) # kvs) =
     (if k = k' then (k', n + 1) # kvs else (k', n) # counter_add k kvs)"

definition Counter :: "'a list \<Rightarrow> ('a \<times> nat) list" where
  "Counter xs = fold counter_add xs []"

definition most_common :: "nat \<Rightarrow> ('a \<times> nat) list \<Rightarrow> ('a \<times> nat) list" where
  "most_common n kvs = take n (py_sort_reverse snd kvs)"

text \<open>The list \<^verbatim>\<open>keywords\<close> that the token loop of \<^verbatim>\<open>extract_keywords\<close> builds.\<close>

definition token_keywords :: "runtime \<Rightarrow> token list \<Rightarrow> pystr list" where
  "token_keywords py doc =
     map (\<lambda>t. lower py (token_lemma t))
       (filter (\<lambda>t. is_alpha t \<and> \<not> is_stop t \<and> \<not> is_punct t \<and> length (token_text t) > 2) doc)"

definition extract_keywords :: "runtime \<Rightarrow> language option \<Rightarrow> pystr \<Rightarrow> nat \<Rightarrow> pystr list" where
  "extract_keywords py nlp txt max_keywords =
     (case nlp of
        None \<Rightarrow> []
      | Some pipeline \<Rightarrow>
          if txt = [] then []
          else
            let doc = pipeline txt;
                keywords = token_keywords py doc;
                keyword_freq = Counter keywords
            in map fst (most_common max_keywords keyword_freq))"

text \<open>
  The keywords of a list in the words of the specification: its distinct elements in the
  order of their first occurrence, sorted by falling frequency (stably, so that the
  earlier keyword wins a tie), and cut to the first \<open>n\<close>.
\<close>

definition first_occurrences :: "'a list \<Rightarrow> 'a list" where
  "first_occurrences xs = rev (remdups (rev xs))"

definition most_frequent :: "nat \<Rightarrow> 'a list \<Rightarrow> 'a list" where
  "most_frequent n xs = take n (py_sort_reverse (count_list xs) (first_occurrences xs))"

section \<open>Instances for the examples\<close>

text \<open>
  The Unicode database of CPython on the code points below 256 (above them no class holds
  and \<^verbatim>\<open>lower\<close> changes nothing), with float operations that do not round. The examples
  below use ASCII and Latin-1 text and quotients that floats represent exactly.
\<close>

definition in_ranges :: "(nat \<times> nat) list \<Rightarrow> nat \<Rightarrow> bool" where
  "in_ranges rs c = list_ex (\<lambda>(lo, hi). lo \<le> c \<and> c \<le> hi) rs"

definition latin1 :: runtime where
  "latin1 =
     \<lparr>uc_isspace = in_ranges [(9, 13), (28, 32), (133, 133), (160, 160)],
      uc_isupper = in_ranges [(65, 90), (192, 214), (216, 222)],
      uc_islower = in_ranges [(97, 122), (170, 170), (181, 181), (186, 186), (223, 246), (248, 255)],
      uc_istitle = (\<lambda>c. False),
      uc_isdecimal = in_ranges [(48, 57)],
      uc_isalnum = in_ranges [(48, 57), (65, 90), (97, 122), (170, 170), (178, 179), (181, 181),
                              (185, 186), (188, 190), (192, 214), (216, 246), (248, 255)],
      uc_lower = map (\<lambda>c. if in_ranges [(65, 90), (192, 214), (216, 222)] c then c + 32 else c),
      fl_div = (\<lambda>a b. a / b),
      fl_sum = sum_list,
      fl_1_1 = 11 / 10\<rparr>"

text \<open>
  A small stand-in for the English pipeline, used to evaluate examples only: tokens are the
  words between spaces, a token is alphabetic when it consists of the letters A to Z and a
  to z, the stop words are a few English function words, and the lemma of a token is its
  text.
\<close>

definition demo_stop_words :: "pystr list" where
  "demo_stop_words =
     map ustr [''the'', ''a'', ''an'', ''and'', ''was'', ''is'', ''of'', ''in'', ''with'']"

definition demo_nlp :: language where
  "demo_nlp txt =
     map (\<lambda>w. \<lparr>token_text = w, token_lemma = w,
               is_alpha = list_all (in_ranges [(65, 90), (97, 122)]) w,
               is_stop = (lower latin1 w \<in> set demo_stop_words), is_punct = False\<rparr>)
       (filter (\<lambda>w. w \<noteq> []) (split (of_char CHR '' '') txt))"

section \<open>Round 1B: relevance\_extractor.py\<close>

text \<open>
  The extractor object: the spaCy pipeline of its text processor and the sentence
  transformer, each \<open>None\<close> when it could not be loaded. \<^verbatim>\<open>encode\<close> returns the vector
  of a text, or \<open>None\<close> when it raises.
\<close>

type_synonym encoder = "pystr \<Rightarrow> real list option"

record extractor =
  nlp :: "language option"
  sentence_model :: "encoder option"

text \<open>A span of \<^verbatim>\<open>extract_text_with_formatting\<close>, with the two keys the extractor reads.\<close>

record span =
  span_text :: pystr
  span_font_size :: real

text \<open>The heading dicts of \<^verbatim>\<open>_find_headings_in_page\<close>.\<close>

record page_heading =
  ph_text :: pystr
  ph_font_size :: real
  ph_level :: pystr

record doc_section =
  document :: pystr
  section_page :: nat
  title :: pystr
  content :: pystr
  heading_level :: pystr

text \<open>A section with the key \<^verbatim>\<open>relevance_score\<close> added to its copy.\<close>

record scored_section = doc_section +
  relevance_score :: pyfloat

definition find_headings_in_page :: "runtime \<Rightarrow> span list \<Rightarrow> page_heading list" where
  "find_headings_in_page py formatted_text =
     (if formatted_text = [] then []
      else
        let font_sizes = map span_font_size formatted_text;
            avg_font_size =
              (if font_sizes \<noteq> []
               then fl_div py (fl_sum py font_sizes) (real (length font_sizes)) else 12)
        in map (\<lambda>item. \<lparr>ph_text = clean_text py (span_text item),
                         ph_font_size = span_font_size item, ph_level = ustr ''H2''\<rparr>)
             (filter (\<lambda>item. is_likely_heading py (span_text item) (span_font_size item)
                               avg_font_size)
                formatted_text))"

text \<open>
  The spans of a page that the classifier accepts against the average font size of that
  page, in the words of the specification.
\<close>

definition page_average :: "runtime \<Rightarrow> span list \<Rightarrow> real" where
  "page_average py formatted_text =
     fl_div py (fl_sum py (map span_font_size formatted_text)) (real (length formatted_text))"

definition accepted_spans :: "runtime \<Rightarrow> span list \<Rightarrow> span list" where
  "accepted_spans py formatted_text =
     filter (\<lambda>item. is_likely_heading py (span_text item) (span_font_size item)
                      (page_average py formatted_text))
       formatted_text"

text \<open>
  The search loop of \<^verbatim>\<open>_extract_section_content\<close>: the index of the first line that
  contains the heading, both lower-cased, or -1.
\<close>

fun find_heading_line :: "runtime \<Rightarrow> pystr \<Rightarrow> pystr list \<Rightarrow> nat \<Rightarrow> int" where
  "find_heading_line py heading [] i = -1"
| "find_heading_line py heading (line # lines) i =
     (if py_in (lower py heading) (lower py line) then int i
      else find_heading_line py heading lines (Suc i))"

text \<open>\<^verbatim>\<open>xs[i:j]\<close> for indices that are not negative.\<close>

definition slice :: "'a list \<Rightarrow> nat \<Rightarrow> nat \<Rightarrow> 'a list" where
  "slice xs i j = drop i (take j xs)"

definition extract_section_content :: "runtime \<Rightarrow> pystr \<Rightarrow> pystr \<Rightarrow> nat \<Rightarrow> pystr" where
  "extract_section_content py page_text heading page_num =
     (let lines = split 10 page_text;
          heading_line_idx = find_heading_line py heading lines 0
      in if heading_line_idx = -1 then join (ustr '' '') (take 10 lines)
         else
           let start_idx = nat heading_line_idx + 1;
               end_idx = min (start_idx + 10) (length lines);
               content_lines = slice lines start_idx end_idx
           in strip py (join (ustr '' '') content_lines))"

text \<open>
  The body of the page loop of \<^verbatim>\<open>_extract_document_sections\<close>: the sections that page
  \<open>page_num\<close> (counted from 0) adds. The line separator \<^verbatim>\<open>'\n'\<close> is the code point 10.
\<close>

definition page_sections ::
  "runtime \<Rightarrow> pystr \<Rightarrow> nat \<Rightarrow> span list \<Rightarrow> pystr \<Rightarrow> doc_section list" where
  "page_sections py filename page_num formatted_text plain_text =
     (let headings = find_headings_in_page py formatted_text
      in if headings = [] then
           (if strip py plain_text \<noteq> [] then
              [\<lparr>document = filename, section_page = page_num + 1,
                title = ustr ''Page '' @ str_of_nat (page_num + 1),
                content = plain_text, heading_level = ustr ''content''\<rparr>]
            else [])
         else
           map (\<lambda>heading.
                  \<lparr>document = filename, section_page = page_num + 1,
                   title = ph_text heading,
                   content = extract_section_content py plain_text (ph_text heading) page_num,
                   heading_level = ph_level heading\<rparr>)
             headings)"

text \<open>
  A document is the list of its pages, each with its spans and its plain text, or \<open>None\<close>
  when \<^verbatim>\<open>load_pdf\<close> fails.
\<close>

definition extract_document_sections ::
  "runtime \<Rightarrow> pystr \<Rightarrow> (span list \<times> pystr) list option \<Rightarrow> doc_section list" where
  "extract_document_sections py filename pdf =
     (case pdf of
        None \<Rightarrow> []
      | Some pages \<Rightarrow>
          concat (map (\<lambda>(page_num, formatted_text, plain_text).
                         page_sections py filename page_num formatted_text plain_text)
                    (enumerate 0 pages)))"

text \<open>\<^verbatim>\<open>_calculate_keyword_relevance\<close>; \<^verbatim>\<open>max_keywords\<close> has its default 10.\<close>

definition calculate_keyword_relevance :: "runtime \<Rightarrow> extractor \<Rightarrow> pystr \<Rightarrow> pystr \<Rightarrow> real" where
  "calculate_keyword_relevance py self query txt =
     (if query = [] \<or> txt = [] then 0
      else
        let query_keywords = set (extract_keywords py (nlp self) (lower py query) 10);
            text_keywords = set (extract_keywords py (nlp self) (lower py txt) 10)
        in if query_keywords = {} then 0
           else
             let intersection = card (query_keywords \<inter> text_keywords);
                 union = card (query_keywords \<union> text_keywords)
             in if union > 0 then real intersection / real union else 0)"

text \<open>The keyword set that the relevance score takes of a text.\<close>

definition keyword_set :: "runtime \<Rightarrow> extractor \<Rightarrow> pystr \<Rightarrow> pystr set" where
  "keyword_set py self txt = set (extract_keywords py (nlp self) (lower py txt) 10)"

text \<open>
  \<^verbatim>\<open>_calculate_semantic_relevance\<close>. Every exception of the \<^verbatim>\<open>try\<close> block leads to the
  keyword score: no model, a failing \<^verbatim>\<open>encode\<close>, vectors of different lengths in
  \<^verbatim>\<open>np.dot\<close>. The method assigns to no attribute of \<^verbatim>\<open>self\<close>; the model returns the
  extractor next to the score to say so. The vector arithmetic is exact. When a norm is
  zero numpy divides zero by zero: it raises nothing and the score is NaN.
\<close>

definition dot :: "real list \<Rightarrow> real list \<Rightarrow> real" where
  "dot a b = sum_list (map2 (*) a b)"

definition l2_norm :: "real list \<Rightarrow> real" where
  "l2_norm v = sqrt (sum_list (map (\<lambda>x. x * x) v))"

definition calculate_semantic_relevance ::
  "runtime \<Rightarrow> extractor \<Rightarrow> pystr \<Rightarrow> pystr \<Rightarrow> pyfloat \<times> extractor" where
  "calculate_semantic_relevance py self query txt =
     (case sentence_model self of
        None \<Rightarrow> (Num (calculate_keyword_relevance py self query txt), self)
      | Some model \<Rightarrow>
          (case model query of
             None \<Rightarrow> (Num (calculate_keyword_relevance py self query txt), self)
           | Some query_embedding \<Rightarrow>
               (case model txt of
                  None \<Rightarrow> (Num (calculate_keyword_relevance py self query txt), self)
                | Some text_embedding \<Rightarrow>
                    if length query_embedding \<noteq> length text_embedding
                    then (Num (calculate_keyword_relevance py self query txt), self)
                    else if l2_norm query_embedding * l2_norm text_embedding = 0
                    then (NaN, self)
                    else (Num (dot query_embedding text_embedding
                                 / (l2_norm query_embedding * l2_norm text_embedding)), self))))"

text \<open>
  The scoring loop of \<^verbatim>\<open>_rank_sections_by_relevance\<close>, with the extractor threaded
  through the calls, and the sort that follows it.
\<close>

fun score_sections ::
  "runtime \<Rightarrow> extractor \<Rightarrow> pystr \<Rightarrow> doc_section list \<Rightarrow> scored_section list \<times> extractor" where
  "score_sections py self query [] = ([], self)"
| "score_sections py self query (s # sections) =
     (let combined_text = title s @ ustr '' '' @ content s;
          (relevance_score, self1) =
            (if sentence_model self \<noteq> None
             then calculate_semantic_relevance py self query combined_text
             else (Num (calculate_keyword_relevance py self query combined_text), self));
          section_copy = doc_section.extend s (scored_section.fields relevance_score);
          (scored_sections, self2) = score_sections py self1 query sections
      in (section_copy # scored_sections, self2))"

text \<open>
  The score that one pass of the loop gives to a section, and the copy it appends, when
  the loop starts from the extractor \<open>self\<close>.
\<close>

definition section_score :: "runtime \<Rightarrow> extractor \<Rightarrow> pystr \<Rightarrow> doc_section \<Rightarrow> pyfloat" where
  "section_score py self query s =
     (if sentence_model self \<noteq> None
      then fst (calculate_semantic_relevance py self query (title s @ ustr '' '' @ content s))
      else Num (calculate_keyword_relevance py self query (title s @ ustr '' '' @ content s)))"

definition scored_copy :: "runtime \<Rightarrow> extractor \<Rightarrow> pystr \<Rightarrow> doc_section \<Rightarrow> scored_section" where
  "scored_copy py self query s =
     doc_section.extend s (scored_section.fields (section_score py self query s))"

text \<open>
  \<^verbatim>\<open>_rank_sections_by_relevance\<close>. The list is \<open>None\<close> where the sort is not modelled.
\<close>

definition rank_sections_by_relevance ::
  "runtime \<Rightarrow> extractor \<Rightarrow> doc_section list \<Rightarrow> pystr \<Rightarrow> pystr
     \<Rightarrow> scored_section list option \<times> extractor" where
  "rank_sections_by_relevance py self sections persona job_to_be_done =
     (if sections = [] then (Some [], self)
      else
        let query = persona @ ustr '' '' @ job_to_be_done;
            (scored_sections, self1) = score_sections py self query sections
        in (sort_reverse_floats relevance_score scored_sections, self1))"


text \<open>
  \<^verbatim>\<open>_create_refined_text\<close>. \<open>relevant_sentences\<close> is the list of the same name when the
  join is reached: the fragments found relevant, or the fall-back when there are none.
\<close>

definition relevant_sentences :: "runtime \<Rightarrow> pystr \<Rightarrow> pystr \<Rightarrow> pystr \<Rightarrow> pystr list" where
  "relevant_sentences py content_text persona job_to_be_done =
     (let sentences = split (of_char CHR ''.'') content_text;
          relevant =
            filter (\<lambda>sentence. length sentence > 20 \<and>
                      list_ex (\<lambda>keyword. py_in (lower py keyword) (lower py sentence))
                        [persona, job_to_be_done])
              (map (strip py) (take 5 sentences))
      in if relevant = []
         then map (strip py) (filter (\<lambda>s. length (strip py s) > 20) (take 2 sentences))
         else relevant)"

definition create_refined_text :: "runtime \<Rightarrow> pystr \<Rightarrow> pystr \<Rightarrow> pystr \<Rightarrow> pystr" where
  "create_refined_text py content_text persona job_to_be_done =
     (if content_text = [] then []
      else
        let refined = join (ustr ''. '')
              (take 3 (relevant_sentences py content_text persona job_to_be_done))
        in if length refined > 300 then take 300 refined @ ustr ''...'' else refined)"

text \<open>Sections and extractors used to evaluate examples.\<close>

definition weather_section :: doc_section where
  "weather_section =
     \<lparr>document = ustr ''test.pdf'', section_page = 2, title = ustr ''Weather Report'',
      content = ustr ''Sunny skies and mild temperatures expected'',
      heading_level = ustr ''H2''\<rparr>"

definition financial_section :: doc_section where
  "financial_section =
     \<lparr>document = ustr ''test.pdf'', section_page = 1, title = ustr ''Financial Overview'',
      content = ustr ''Revenue analysis and growth metrics for the quarter'',
      heading_level = ustr ''H2''\<rparr>"

definition keyword_extractor :: extractor where
  "keyword_extractor = \<lparr>nlp = Some demo_nlp, sentence_model = None\<rparr>"

definition bare_extractor :: extractor where
  "bare_extractor = \<lparr>nlp = None, sentence_model = None\<rparr>"

text \<open>An encoder that raises on texts of more than 60 characters.\<close>

definition picky_encoder :: encoder where
  "picky_encoder t = (if length t > 60 then None else Some [3, 4])"

definition picky_extractor :: extractor where
  "picky_extractor = \<lparr>nlp = Some demo_nlp, sentence_model = Some picky_encoder\<rparr>"




text \<open>A page with one numbered heading and one line of body text.\<close>

definition demo_spans :: "span list" where
  "demo_spans =
     [\<lparr>span_text = ustr ''1. Introduction'', span_font_size = 18\<rparr>,
      \<lparr>span_text = ustr ''this page has plain body text'', span_font_size = 6\<rparr>]"

definition demo_page_text :: pystr where
  "demo_page_text =
     ustr ''1. Introduction'' @ [10] @ ustr ''this page has'' @ [10] @ ustr ''plain body text''"

section \<open>Sorting lemmas\<close>


lemma py_sort_reverse_set: "set (py_sort_reverse f xs) = set xs"
  by (simp add: py_sort_reverse_def)

lemma py_sort_reverse_length: "length (py_sort_reverse f xs) = length xs"
  by (simp add: py_sort_reverse_def)

lemma py_sort_reverse_sorted: "sorted (rev (map f (py_sort_reverse f xs)))"
  by (simp add: py_sort_reverse_def rev_map)

lemma py_sort_reverse_stable:
  "filter (\<lambda>y. f y = k) (py_sort_reverse f xs) = filter (\<lambda>y. f y = k) xs"
proof -
  have "filter (\<lambda>y. f y = k) (py_sort_reverse f xs)
        = rev (filter (\<lambda>y. f y = k) (sort_key f (rev xs)))"
    by (simp add: py_sort_reverse_def rev_filter)
  also have "\<dots> = rev (filter (\<lambda>y. f y = k) (rev xs))"
    by (simp only: sort_key_stable)
  also have "\<dots> = filter (\<lambda>y. f y = k) xs"
    by (simp add: rev_filter)
  finally show ?thesis .
qed

lemma py_sort_reverse_distinct: "distinct xs \<Longrightarrow> distinct (py_sort_reverse f xs)"
  by (simp add: py_sort_reverse_def)

lemma sorted_distinct_rev_unique:
  fixes xs ys :: "'a::linorder list"
  assumes "sorted (rev xs)" "distinct xs" "sorted (rev ys)" "distinct ys" "set xs = set ys"
  shows "xs = ys"
proof -
  have "rev xs = rev ys"
    using assms by (intro sorted_distinct_set_unique) simp_all
  then show ?thesis by simp
qed

text \<open>Any enumeration of the set of sizes gives the same descending list.\<close>

lemma unique_font_sizes_any_order:
  assumes "distinct ys" "set ys = font_size ` set headings"
  shows "py_sort_reverse (\<lambda>x. x) ys = unique_font_sizes headings"
proof (rule sorted_distinct_rev_unique)
  show "sorted (rev (py_sort_reverse (\<lambda>x. x) ys))"
    using py_sort_reverse_sorted [of "\<lambda>x. x" ys] by simp
  show "distinct (py_sort_reverse (\<lambda>x. x) ys)"
    using assms(1) by (rule py_sort_reverse_distinct)
  show "sorted (rev (unique_font_sizes headings))"
    using py_sort_reverse_sorted [of "\<lambda>x. x" "remdups (map font_size headings)"]
    by (simp add: unique_font_sizes_def)
  show "distinct (unique_font_sizes headings)"
    by (simp add: unique_font_sizes_def py_sort_reverse_distinct)
  show "set (py_sort_reverse (\<lambda>x. x) ys) = set (unique_font_sizes headings)"
    using assms(2) by (simp add: unique_font_sizes_def py_sort_reverse_set)
qed

lemma unique_font_sizes_props:
  "sorted (rev (unique_font_sizes hs))" "distinct (unique_font_sizes hs)"
  "set (unique_font_sizes hs) = font_size ` set hs"
proof -
  show "sorted (rev (unique_font_sizes hs))"
    using py_sort_reverse_sorted [of "\<lambda>x. x" "remdups (map font_size hs)"]
    by (simp add: unique_font_sizes_def)
  show "distinct (unique_font_sizes hs)"
    by (simp add: unique_font_sizes_def py_sort_reverse_distinct)
  show "set (unique_font_sizes hs) = font_size ` set hs"
    by (simp add: unique_font_sizes_def py_sort_reverse_set)
qed


section \<open>Hierarchy refinement\<close>


lemma font_to_level_simps:
  "font_to_level [] = Map.empty"
  "font_to_level [a] = [a \<mapsto> ''H1'']"
  "font_to_level [a, b] = [a \<mapsto> ''H1'', b \<mapsto> ''H2'']"
  "font_to_level (a # b # c # r) = [a \<mapsto> ''H1'', b \<mapsto> ''H2'', c \<mapsto> ''H3'']"
  by (simp_all add: font_to_level_def level_at_def)

lemma list_shape4:
  obtains "us = []" | a where "us = [a]" | a b where "us = [a, b]"
  | a b c r where "us = a # b # c # r"
  by (metis list.exhaust)

lemma get_level_range: "get_level (font_to_level us) s \<in> {''H1'', ''H2'', ''H3''}"
  by (cases us rule: list_shape4) (auto simp: font_to_level_simps get_level_def)

lemma get_level_take2:
  assumes "distinct us" "distinct vs" "take 2 us = take 2 vs" "s \<in> set us" "s \<in> set vs"
  shows "get_level (font_to_level us) s = get_level (font_to_level vs) s"
  using assms
  by (cases us rule: list_shape4; cases vs rule: list_shape4)
     (auto simp: font_to_level_simps get_level_def)

lemma sort_key_map_commute: "sort_key f (map g xs) = map g (sort_key (\<lambda>x. f (g x)) xs)"
proof (induction xs)
  case Nil
  show ?case by simp
next
  case (Cons x xs)
  have ins: "insort_key f (g x) (map g ys) = map g (insort_key (\<lambda>x. f (g x)) x ys)" for ys
    by (induction ys) simp_all
  show ?case by (simp add: Cons ins)
qed

lemma filter_take_prefix: "prefix (filter P (take n xs)) (filter P xs)"
proof -
  have "filter P xs = filter P (take n xs) @ filter P (drop n xs)"
    by (metis append_take_drop_id filter_append)
  then show ?thesis by (simp add: prefix_def)
qed

lemma entry_simps [simp]:
  "entry_page (outline_entry l h) = page h"
  "entry_level (outline_entry l h) = l"
  "entry_text (outline_entry l h) = heading_text h"
  "map fst (outline_entry l h) = [''level'', ''text'', ''page'']"
  by (simp_all add: entry_page_def entry_level_def entry_text_def outline_entry_def)

lemma refined_headings_page: "map entry_page (refined_headings hs) = map page hs"
  by (simp add: refined_headings_def Let_def comp_def)

lemma sort_refined_headings:
  "sort_key entry_page (refined_headings hs) =
   map (\<lambda>h. outline_entry (get_level (font_to_level (unique_font_sizes hs)) (font_size h)) h)
     (sort_key page hs)"
  by (simp add: refined_headings_def Let_def sort_key_map_commute)


lemma Max_sorted_desc:
  fixes a :: "'a::linorder"
  assumes "sorted (rev (a # r))"
  shows "Max (set (a # r)) = a"
proof (rule Max_eqI)
  show "finite (set (a # r))" by simp
  show "a \<in> set (a # r)" by simp
  fix y assume "y \<in> set (a # r)"
  then show "y \<le> a" using assms by (auto simp: sorted_append)
qed

lemma get_level_spec:
  assumes srt: "sorted (rev us)" and dst: "distinct us" and mem: "s \<in> set us"
  shows "get_level (font_to_level us) s = spec_level (set us) s"
proof (cases us)
  case Nil
  with mem show ?thesis by simp
next
  case (Cons a r)
  have maxa: "Max (set us) = a"
    using srt Max_sorted_desc [of a r] by (simp add: Cons)
  have rest: "set us - {a} = set r"
    using dst by (auto simp: Cons)
  show ?thesis
  proof (cases r)
    case Nil
    with Cons mem maxa show ?thesis
      by (simp add: font_to_level_simps get_level_def spec_level_def)
  next
    case (Cons b r')
    have srt': "sorted (rev (b # r'))"
      using srt by (simp add: \<open>us = a # r\<close> Cons sorted_append)
    have maxb: "Max (set r) = b"
      using Max_sorted_desc [OF srt'] by (simp add: Cons)
    have ab: "a \<noteq> b" and ar: "a \<notin> set r'" and br: "b \<notin> set r'"
      using dst by (auto simp: \<open>us = a # r\<close> Cons)
    show ?thesis
    proof (cases r')
      case Nil
      with Cons \<open>us = a # r\<close> mem ab show ?thesis
        unfolding spec_level_def maxa rest maxb get_level_def
        by (auto simp: font_to_level_simps)
    next
      case (Cons c r'')
      have us: "us = a # b # c # r''"
        by (simp add: \<open>us = a # r\<close> \<open>r = b # r'\<close> Cons)
      have d: "a \<noteq> b" "a \<noteq> c" "b \<noteq> c" "a \<notin> set r''" "b \<notin> set r''" "c \<notin> set r''"
        using dst by (auto simp: us)
      have ne: "set r \<noteq> {}" by (simp add: \<open>r = b # r'\<close>)
      from mem d ne show ?thesis
        unfolding spec_level_def maxa rest maxb get_level_def
        by (auto simp: us font_to_level_simps)
    qed
  qed
qed

lemma refined_headings_spec:
  "refined_headings hs =
   map (\<lambda>h. outline_entry (spec_level (font_size ` set hs) (font_size h)) h) hs"
proof -
  have "get_level (font_to_level (unique_font_sizes hs)) (font_size h)
        = spec_level (font_size ` set hs) (font_size h)" if "h \<in> set hs" for h
    using get_level_spec [of "unique_font_sizes hs" "font_size h"] that
    by (simp add: unique_font_sizes_props)
  then show ?thesis
    by (simp add: refined_headings_def Let_def)
qed

lemma refine_levels_in_range:
  assumes "e \<in> set (refine_heading_hierarchy hs)"
  shows "entry_level e \<in> {''H1'', ''H2'', ''H3''} \<and> map fst e = [''level'', ''text'', ''page'']"
proof -
  from assms have "e \<in> set (refined_headings hs)"
    by (auto simp: refine_heading_hierarchy_def split: if_splits dest: in_set_takeD)
  then obtain h where "e = outline_entry (get_level (font_to_level (unique_font_sizes hs)) (font_size h)) h"
    by (auto simp: refined_headings_def Let_def)
  then show ?thesis
    using get_level_range [of "unique_font_sizes hs" "font_size h"] by simp
qed

text \<open>
  Claim C1. The empty list is refined to the empty list. For a non-empty list the levels
  come from the ranking of the distinct font sizes of the whole list alone: the result is
  the list of entries in which each heading carries \<open>spec_level\<close> of its size (H1 for the
  largest distinct size, H2 for the second largest, H3 for every other size), sorted by
  page and cut to 50. When the list has exactly one distinct size, every entry is H1.
\<close>
theorem refine_assigns_levels_by_size_rank:
  "refine_heading_hierarchy [] = [] \<and>
   (hs \<noteq> [] \<longrightarrow>
      refine_heading_hierarchy hs =
        take 50 (sort_key entry_page
          (map (\<lambda>h. outline_entry (spec_level (font_size ` set hs) (font_size h)) h) hs))) \<and>
   ((\<exists>s. font_size ` set hs = {s}) \<longrightarrow>
      (\<forall>e \<in> set (refine_heading_hierarchy hs). entry_level e = ''H1''))"
proof (intro conjI impI)
  show "refine_heading_hierarchy [] = []"
    by (simp add: refine_heading_hierarchy_def)
  show "refine_heading_hierarchy hs =
        take 50 (sort_key entry_page
          (map (\<lambda>h. outline_entry (spec_level (font_size ` set hs) (font_size h)) h) hs))"
    if "hs \<noteq> []"
    using that by (simp add: refine_heading_hierarchy_def refined_headings_spec)
  show "\<forall>e \<in> set (refine_heading_hierarchy hs). entry_level e = ''H1''"
    if one: "\<exists>s. font_size ` set hs = {s}"
  proof
    fix e assume "e \<in> set (refine_heading_hierarchy hs)"
    then have "e \<in> set (refined_headings hs)"
      by (auto simp: refine_heading_hierarchy_def split: if_splits dest: in_set_takeD)
    then obtain h where h: "h \<in> set hs"
      and e: "e = outline_entry (spec_level (font_size ` set hs) (font_size h)) h"
      by (auto simp: refined_headings_spec)
    from one obtain s where s: "font_size ` set hs = {s}" by blast
    with h have "font_size h = s" by blast
    then show "entry_level e = ''H1''"
      by (simp add: e s spec_level_def)
  qed
qed

text \<open>
  Claim C3. The refined outline has at most 50 entries and is sorted by non-decreasing
  page; for every page \<open>k\<close> the entries of that page appear in the order in which the
  headings were detected (they are an initial segment of the page-\<open>k\<close> entries of the
  unsorted list); every level is H1, H2 or H3; and the keys of every entry are exactly
  level, text and page, so no entry has a font-size key.
\<close>
theorem refined_outline_invariants:
  "length (refine_heading_hierarchy hs) \<le> 50 \<and>
   sorted (map entry_page (refine_heading_hierarchy hs)) \<and>
   (\<forall>k. prefix (filter (\<lambda>e. entry_page e = k) (refine_heading_hierarchy hs))
               (filter (\<lambda>e. entry_page e = k) (refined_headings hs))) \<and>
   (\<forall>e \<in> set (refine_heading_hierarchy hs).
      entry_level e \<in> {''H1'', ''H2'', ''H3''} \<and> ''font_size'' \<notin> fst ` set e \<and>
      map fst e = [''level'', ''text'', ''page''])"
proof (intro conjI allI ballI)
  show "length (refine_heading_hierarchy hs) \<le> 50"
    by (simp add: refine_heading_hierarchy_def)
  show "sorted (map entry_page (refine_heading_hierarchy hs))"
  proof (cases "hs = []")
    case True
    then show ?thesis by (simp add: refine_heading_hierarchy_def)
  next
    case False
    have "sorted (take 50 (map entry_page (sort_key entry_page (refined_headings hs))))"
      by (rule sorted_wrt_take) simp
    with False show ?thesis
      by (simp add: refine_heading_hierarchy_def take_map)
  qed
  show "prefix (filter (\<lambda>e. entry_page e = k) (refine_heading_hierarchy hs))
               (filter (\<lambda>e. entry_page e = k) (refined_headings hs))" for k
  proof (cases "hs = []")
    case True
    then show ?thesis by (simp add: refine_heading_hierarchy_def)
  next
    case False
    have "prefix (filter (\<lambda>e. entry_page e = k) (take 50 (sort_key entry_page (refined_headings hs))))
                 (filter (\<lambda>e. entry_page e = k) (sort_key entry_page (refined_headings hs)))"
      by (rule filter_take_prefix)
    with False show ?thesis
      by (simp add: refine_heading_hierarchy_def sort_key_stable)
  qed
  fix e assume e: "e \<in> set (refine_heading_hierarchy hs)"
  from refine_levels_in_range [OF e]
  show "entry_level e \<in> {''H1'', ''H2'', ''H3''}" and "map fst e = [''level'', ''text'', ''page'']"
    by simp_all
  have "fst ` set e = set (map fst e)" by simp
  also have "\<dots> = {''level'', ''text'', ''page''}"
    using refine_levels_in_range [OF e] by simp
  finally show "''font_size'' \<notin> fst ` set e" by simp
qed


theorem refine_assigns_levels_by_size_rank_witness:
  "mock_headings \<noteq> [] \<and>
   refine_heading_hierarchy mock_headings =
     [[(''level'', PStr ''H1''), (''text'', PStr ''Chapter 1''), (''page'', PInt 1)],
      [(''level'', PStr ''H2''), (''text'', PStr ''Section 1.1''), (''page'', PInt 1)],
      [(''level'', PStr ''H3''), (''text'', PStr ''Subsection 1.1.1''), (''page'', PInt 2)],
      [(''level'', PStr ''H1''), (''text'', PStr ''Chapter 2''), (''page'', PInt 3)]] \<and>
   font_size ` set single_heading = {14} \<and>
   map entry_level (refine_heading_hierarchy single_heading) = [''H1'']"
proof -
  have ne: "mock_headings \<noteq> []" by (simp add: mock_headings_def)
  have one: "font_size ` set single_heading = {14}" by (simp add: single_heading_def)
  have r1: "refine_heading_hierarchy single_heading
            = [[(''level'', PStr ''H1''), (''text'', PStr ''Title''), (''page'', PInt 1)]]"
    using refine_assigns_levels_by_size_rank [of single_heading]
    by (simp add: single_heading_def spec_level_def outline_entry_def)
  have d: "({14, 12, 16} :: real set) - {16} = {14, 12}" by auto
  have r4: "refine_heading_hierarchy mock_headings =
     [[(''level'', PStr ''H1''), (''text'', PStr ''Chapter 1''), (''page'', PInt 1)],
      [(''level'', PStr ''H2''), (''text'', PStr ''Section 1.1''), (''page'', PInt 1)],
      [(''level'', PStr ''H3''), (''text'', PStr ''Subsection 1.1.1''), (''page'', PInt 2)],
      [(''level'', PStr ''H1''), (''text'', PStr ''Chapter 2''), (''page'', PInt 3)]]"
    using refine_assigns_levels_by_size_rank [of mock_headings]
    by (simp add: mock_headings_def spec_level_def outline_entry_def entry_page_def d)
  show ?thesis
    using ne one r1 r4 by (simp add: entry_level_def)
qed

theorem refined_outline_invariants_witness:
  "length (refine_heading_hierarchy mock_headings) \<le> 50 \<and>
   sorted (map entry_page (refine_heading_hierarchy mock_headings)) \<and>
   prefix (filter (\<lambda>e. entry_page e = 1) (refine_heading_hierarchy mock_headings))
          (filter (\<lambda>e. entry_page e = 1) (refined_headings mock_headings)) \<and>
   hd (refine_heading_hierarchy mock_headings) \<in> set (refine_heading_hierarchy mock_headings) \<and>
   entry_level (hd (refine_heading_hierarchy mock_headings)) \<in> {''H1'', ''H2'', ''H3''} \<and>
   ''font_size'' \<notin> fst ` set (hd (refine_heading_hierarchy mock_headings))"
proof -
  have "refine_heading_hierarchy mock_headings \<noteq> []"
    by code_simp
  then have "hd (refine_heading_hierarchy mock_headings) \<in> set (refine_heading_hierarchy mock_headings)"
    by simp
  then show ?thesis
    using refined_outline_invariants [of mock_headings] by blast
qed

lemma kept_headings_nil: "kept_headings hs = [] \<longleftrightarrow> hs = []"
proof
  assume "kept_headings hs = []"
  then have "length (sort_key page hs) = 0"
    by (simp add: kept_headings_def)
  then show "hs = []" by simp
next
  assume "hs = []" then show "kept_headings hs = []" by (simp add: kept_headings_def)
qed

lemma kept_headings_short:
  assumes "length hs \<le> 50"
  shows "unique_font_sizes (kept_headings hs) = unique_font_sizes hs"
proof -
  have "kept_headings hs = sort_key page hs"
    using assms by (simp add: kept_headings_def)
  then have "set (unique_font_sizes (kept_headings hs)) = set (unique_font_sizes hs)"
    by (simp add: unique_font_sizes_props)
  then show ?thesis
    by (intro sorted_distinct_rev_unique unique_font_sizes_props)
qed

lemma kept_headings_pairs:
  "map (\<lambda>h. (heading_text h, page h)) (kept_headings hs)
   = map (\<lambda>e. (entry_text e, entry_page e)) (refine_heading_hierarchy hs)"
  by (simp add: refine_heading_hierarchy_def kept_headings_def sort_refined_headings take_map comp_def)

text \<open>
  Claim C8, as amended. \<open>kept_headings hs\<close> is the output of the first run with every entry
  restored to its original font size (its (text, page) pairs are those of the output).
  Re-running the refinement on it gives the output of the first run again, provided the
  cut to 50 entries has not removed the largest or second-largest distinct font size; this
  holds in particular when there are at most 50 headings.
\<close>
theorem refine_idempotent_when_top_sizes_kept:
  assumes "length hs \<le> 50 \<or>
           take 2 (unique_font_sizes (kept_headings hs)) = take 2 (unique_font_sizes hs)"
  shows "map (\<lambda>h. (heading_text h, page h)) (kept_headings hs)
           = map (\<lambda>e. (entry_text e, entry_page e)) (refine_heading_hierarchy hs) \<and>
         refine_heading_hierarchy (kept_headings hs) = refine_heading_hierarchy hs"
proof (rule conjI)
  show "map (\<lambda>h. (heading_text h, page h)) (kept_headings hs)
           = map (\<lambda>e. (entry_text e, entry_page e)) (refine_heading_hierarchy hs)"
    by (rule kept_headings_pairs)
next
  let ?K = "kept_headings hs"
  let ?lvl = "\<lambda>xs h. outline_entry (get_level (font_to_level (unique_font_sizes xs)) (font_size h)) h"
  have top: "take 2 (unique_font_sizes ?K) = take 2 (unique_font_sizes hs)"
    using assms kept_headings_short by auto
  have sub: "set ?K \<subseteq> set hs"
    using set_take_subset [of 50 "sort_key page hs"] by (simp add: kept_headings_def)
  have same: "?lvl ?K h = ?lvl hs h" if "h \<in> set ?K" for h
  proof -
    have "font_size h \<in> set (unique_font_sizes ?K)" "font_size h \<in> set (unique_font_sizes hs)"
      using that sub by (auto simp: unique_font_sizes_props)
    then show ?thesis
      using get_level_take2 [OF unique_font_sizes_props(2) unique_font_sizes_props(2) top]
      by simp
  qed
  have "sorted (take 50 (map page (sort_key page hs)))"
    by (rule sorted_wrt_take) simp
  then have srtK: "sorted (map page ?K)"
    by (simp add: kept_headings_def take_map)
  have lenK: "length ?K \<le> 50" by (simp add: kept_headings_def)
  show "refine_heading_hierarchy ?K = refine_heading_hierarchy hs"
  proof (cases "hs = []")
    case True
    then show ?thesis by (simp add: kept_headings_def)
  next
    case False
    then have neK: "?K \<noteq> []" by (simp add: kept_headings_nil)
    have "refine_heading_hierarchy ?K = take 50 (map (?lvl ?K) (sort_key page ?K))"
      using neK by (simp add: refine_heading_hierarchy_def sort_refined_headings)
    also have "\<dots> = take 50 (map (?lvl ?K) ?K)"
      using srtK by (simp add: sort_key_id_if_sorted)
    also have "\<dots> = map (?lvl ?K) ?K"
      using lenK by simp
    also have "\<dots> = map (?lvl hs) ?K"
      using same by simp
    also have "\<dots> = refine_heading_hierarchy hs"
      using False by (simp add: refine_heading_hierarchy_def sort_refined_headings kept_headings_def take_map)
    finally show ?thesis .
  qed
qed

theorem refine_idempotent_when_top_sizes_kept_witness:
  "length mock_headings \<le> 50 \<and>
   refine_heading_hierarchy (kept_headings mock_headings) = refine_heading_hierarchy mock_headings"
proof -
  have "length mock_headings \<le> 50" by (simp add: mock_headings_def)
  then show ?thesis
    using refine_idempotent_when_top_sizes_kept [of mock_headings] by simp
qed

text \<open>
  Claim C8 as stated fails once the cut removes the largest size: with 50 headings of size
  12 on page 1 and one of size 16 on page 2, the first run labels the 50 kept entries H2,
  and the second run, which sees the single size 12, labels them H1.
\<close>

theorem refine_not_idempotent_after_truncation:
  "map (\<lambda>h. (heading_text h, page h)) (kept_headings long_headings)
     = map (\<lambda>e. (entry_text e, entry_page e)) (refine_heading_hierarchy long_headings) \<and>
   map font_size (kept_headings long_headings) = replicate 50 12 \<and>
   map entry_level (refine_heading_hierarchy long_headings) = replicate 50 ''H2'' \<and>
   map entry_level (refine_heading_hierarchy (kept_headings long_headings)) = replicate 50 ''H1'' \<and>
   refine_heading_hierarchy (kept_headings long_headings) \<noteq> refine_heading_hierarchy long_headings"
  by code_simp


section \<open>The span classifier\<close>


lemma many1_iff:
  "r \<in> set (many1 p s) \<longleftrightarrow> (\<exists>a. a \<noteq> [] \<and> list_all p a \<and> s = a @ r)"
proof (induction s)
  case Nil
  show ?case by simp
next
  case (Cons c cs)
  show ?case
  proof (cases "p c")
    case False
    have "\<not> (\<exists>a. a \<noteq> [] \<and> list_all p a \<and> c # cs = a @ r)"
    proof
      assume "\<exists>a. a \<noteq> [] \<and> list_all p a \<and> c # cs = a @ r"
      then obtain a where "a \<noteq> []" "list_all p a" "c # cs = a @ r" by blast
      then have "p c" by (cases a) auto
      with False show False by simp
    qed
    with False show ?thesis by simp
  next
    case True
    have "(\<exists>a. a \<noteq> [] \<and> list_all p a \<and> c # cs = a @ r)
          \<longleftrightarrow> r = cs \<or> (\<exists>a. a \<noteq> [] \<and> list_all p a \<and> cs = a @ r)"
    proof
      assume "\<exists>a. a \<noteq> [] \<and> list_all p a \<and> c # cs = a @ r"
      then obtain a where a: "a \<noteq> []" "list_all p a" "c # cs = a @ r" by blast
      then obtain a' where a': "a = c # a'" "list_all p a'" "cs = a' @ r"
        by (cases a) auto
      show "r = cs \<or> (\<exists>a. a \<noteq> [] \<and> list_all p a \<and> cs = a @ r)"
      proof (cases "a' = []")
        case True
        with a' show ?thesis by simp
      next
        case False
        with a' show ?thesis by blast
      qed
    next
      assume "r = cs \<or> (\<exists>a. a \<noteq> [] \<and> list_all p a \<and> cs = a @ r)"
      then show "\<exists>a. a \<noteq> [] \<and> list_all p a \<and> c # cs = a @ r"
      proof
        assume "r = cs"
        then have "[c] \<noteq> [] \<and> list_all p [c] \<and> c # cs = [c] @ r"
          using True by simp
        then show ?thesis by blast
      next
        assume "\<exists>a. a \<noteq> [] \<and> list_all p a \<and> cs = a @ r"
        then obtain a where "a \<noteq> []" "list_all p a" "cs = a @ r" by blast
        then have "c # a \<noteq> [] \<and> list_all p (c # a) \<and> c # cs = (c # a) @ r"
          using True by simp
        then show ?thesis by blast
      qed
    qed
    with True Cons show ?thesis by auto
  qed
qed

lemma one_iff: "r \<in> set (consume (One p) s) \<longleftrightarrow> (\<exists>c. p c \<and> s = c # r)"
  by (cases s) auto

lemma re_match_Many1:
  "re_match (Many1 p # rs) t \<longleftrightarrow>
   (\<exists>a r. t = a @ r \<and> a \<noteq> [] \<and> list_all p a \<and> re_match rs r)"
proof -
  have "re_match (Many1 p # rs) t \<longleftrightarrow> (\<exists>r. r \<in> set (many1 p t) \<and> re_match rs r)"
    by (auto simp: list_ex_iff)
  also have "\<dots> \<longleftrightarrow> (\<exists>r. (\<exists>a. a \<noteq> [] \<and> list_all p a \<and> t = a @ r) \<and> re_match rs r)"
    by (simp only: many1_iff)
  also have "\<dots> \<longleftrightarrow> (\<exists>a r. t = a @ r \<and> a \<noteq> [] \<and> list_all p a \<and> re_match rs r)"
    by auto
  finally show ?thesis .
qed

lemma re_match_One:
  "re_match (One p # rs) t \<longleftrightarrow> (\<exists>c r. t = c # r \<and> p c \<and> re_match rs r)"
  by (cases t) (auto simp: list_ex_iff)

lemma re_match_numbered:
  "re_match [Many1 p1, One p2, Many1 p3] t \<longleftrightarrow>
   (\<exists>ds c ws r. t = ds @ c # ws @ r \<and> ds \<noteq> [] \<and> list_all p1 ds \<and> p2 c \<and>
      ws \<noteq> [] \<and> list_all p3 ws)"
  unfolding re_match_Many1 re_match_One re_match.simps(1)
  apply auto
  apply blast
  done

lemma re_match_two:
  "re_match [Many1 p1, Many1 p2] t \<longleftrightarrow>
   (\<exists>us ps r. t = us @ ps @ r \<and> us \<noteq> [] \<and> list_all p1 us \<and> ps \<noteq> [] \<and> list_all p2 ps)"
  unfolding re_match_Many1 re_match.simps(1)
  by auto

lemma re_match_three:
  "re_match [Many1 p1, Many1 p2, Many1 p3] t \<longleftrightarrow>
   (\<exists>w ws ds r. t = w @ ws @ ds @ r \<and> w \<noteq> [] \<and> list_all p1 w \<and>
      ws \<noteq> [] \<and> list_all p2 ws \<and> ds \<noteq> [] \<and> list_all p3 ds)"
  unfolding re_match_Many1 re_match.simps(1)
  apply auto
  apply blast
  done

lemma matches_pattern_spec:
  "matches_pattern py txt \<longleftrightarrow>
   spec_numbered py (strip py txt) \<or> spec_capitals py (strip py txt)
     \<or> spec_word_number py (strip py txt)"
  by (simp add: matches_pattern_def heading_patterns_def re_match_numbered re_match_two
      re_match_three spec_numbered_def spec_capitals_def spec_word_number_def
      del: re_match.simps)

lemma endswith_colon: "endswith s (ustr '':'') \<longleftrightarrow> s \<noteq> [] \<and> last s = of_char CHR '':''"
proof (cases "rev s")
  case Nil
  then show ?thesis by (simp add: endswith_def ustr_def)
next
  case (Cons c cs)
  then have s: "s = rev cs @ [c]" by (metis rev.simps(2) rev_rev_ident)
  show ?thesis by (auto simp add: endswith_def ustr_def s)
qed

text \<open>\<open>strip\<close> returns the stripped form of the specification, and nothing else is one.\<close>

lemma strip_is_stripped: "spec_stripped py s (strip py s)"
proof -
  define sp where "sp = uc_isspace py"
  define m where "m = dropWhile sp s"
  define a where "a = takeWhile sp s"
  define b where "b = rev (takeWhile sp (rev m))"
  define t where "t = rev (dropWhile sp (rev m))"
  have st: "strip py s = t"
    by (simp add: strip_def t_def m_def sp_def)
  have "t @ b = rev (takeWhile sp (rev m) @ dropWhile sp (rev m))"
    by (simp only: t_def b_def rev_append)
  also have "\<dots> = rev (rev m)"
    by (simp only: takeWhile_dropWhile_id)
  finally have m: "m = t @ b" by simp
  have "s = a @ m"
    by (simp add: a_def m_def)
  then have s: "s = a @ t @ b" by (simp only: m)
  have la: "list_all sp a"
    by (auto simp: a_def list_all_iff dest: set_takeWhileD)
  have lb: "list_all sp b"
    by (auto simp: b_def list_all_iff dest: set_takeWhileD)
  have ends: "\<not> sp (hd t) \<and> \<not> sp (last t)" if ne: "t \<noteq> []"
  proof
    have "m \<noteq> []" using ne m by simp
    then have "\<not> sp (hd m)" unfolding m_def by (rule hd_dropWhile)
    moreover have "hd m = hd t" using ne by (simp add: m)
    ultimately show "\<not> sp (hd t)" by simp
    have d: "dropWhile sp (rev m) \<noteq> []" using ne by (simp add: t_def)
    then have "\<not> sp (hd (dropWhile sp (rev m)))" by (rule hd_dropWhile)
    moreover have "last t = hd (dropWhile sp (rev m))" using d by (simp add: t_def last_rev)
    ultimately show "\<not> sp (last t)" by simp
  qed
  have "spec_stripped py s t"
    unfolding spec_stripped_def sp_def [symmetric]
    using s la lb ends by blast
  then show ?thesis by (simp only: st)
qed

lemma stripped_unique:
  assumes "spec_stripped py s t"
  shows "t = strip py s"
proof -
  let ?sp = "uc_isspace py"
  from assms obtain a b where s: "s = a @ t @ b" and a: "list_all ?sp a" and b: "list_all ?sp b"
    and t: "t = [] \<or> \<not> ?sp (hd t) \<and> \<not> ?sp (last t)"
    unfolding spec_stripped_def by blast
  show ?thesis
  proof (cases "t = []")
    case True
    have "list_all ?sp s" using s a b True by simp
    then have d0: "dropWhile ?sp s = []"
      using dropWhile_eq_Nil_conv [of ?sp s] by (simp add: list_all_iff)
    show ?thesis unfolding strip_def d0 using True by simp
  next
    case False
    with t have h: "\<not> ?sp (hd t)" and l: "\<not> ?sp (last t)" by simp_all
    have "dropWhile ?sp s = dropWhile ?sp (t @ b)"
      unfolding s using a by (intro dropWhile_append2) (simp add: list_all_iff)
    also have "\<dots> = t @ b"
      using False h by (cases t) simp_all
    finally have d: "dropWhile ?sp s = t @ b" .
    have "dropWhile ?sp (rev b @ rev t) = dropWhile ?sp (rev t)"
      using b by (intro dropWhile_append2) (simp add: list_all_iff)
    also have "\<dots> = rev t"
      using False l by (cases "rev t") (simp_all add: hd_rev)
    finally show ?thesis
      by (simp add: strip_def d)
  qed
qed

lemma strip_empty_iff: "strip py s = [] \<longleftrightarrow> list_all (uc_isspace py) s"
proof
  assume "strip py s = []"
  with strip_is_stripped [of py s] show "list_all (uc_isspace py) s"
    by (auto simp: spec_stripped_def)
next
  assume "list_all (uc_isspace py) s"
  then have "spec_stripped py s []"
    unfolding spec_stripped_def by (intro exI [of _ s] exI [of _ "[]"]) simp
  then show "strip py s = []"
    using stripped_unique by fastforce
qed

text \<open>The scan of \<^verbatim>\<open>istitle\<close> decides title case as the documentation words it.\<close>

lemma istitle_scan_spec:
  "istitle_scan py before seen s \<longleftrightarrow>
     (seen \<or> list_ex (cased py) s) \<and>
     (\<forall>(after_cased, c) \<in> set (zip (before # map (cased py) s) s).
        (uc_isupper py c \<or> uc_istitle py c \<longrightarrow> \<not> after_cased) \<and>
        (\<not> (uc_isupper py c \<or> uc_istitle py c) \<and> uc_islower py c \<longrightarrow> after_cased))"
proof (induction s arbitrary: before seen)
  case Nil
  show ?case by simp
next
  case (Cons c cs)
  consider (up) "uc_isupper py c \<or> uc_istitle py c"
    | (low) "\<not> (uc_isupper py c \<or> uc_istitle py c)" "uc_islower py c"
    | (none) "\<not> (uc_isupper py c \<or> uc_istitle py c)" "\<not> uc_islower py c"
    by blast
  then show ?case
  proof cases
    case up
    then have c: "cased py c" by (auto simp: cased_def)
    show ?thesis
      using up c Cons [of True True] by (cases before) auto
  next
    case low
    then have c: "cased py c" by (auto simp: cased_def)
    show ?thesis
      using low c Cons [of True True] by (cases before) auto
  next
    case none
    then have c: "\<not> cased py c" by (auto simp: cased_def)
    show ?thesis
      using none c Cons [of False seen] by auto
  qed
qed

lemma istitle_spec: "istitle py s \<longleftrightarrow> spec_titlecase py s"
  by (simp add: istitle_def spec_titlecase_def istitle_scan_spec)

lemma heading_score_spec:
  assumes "0 < avg"
  shows "heading_score py txt fs avg = spec_points py txt fs avg"
  using assms
  by (simp add: heading_score_def spec_points_def font_size_ratio_def Let_def
      matches_pattern_spec endswith_colon)

text \<open>
  Claim C2. The stripped form of a text is the text without its leading and trailing white
  space, and a text is title-case as the Python documentation words it. For a positive average font size, a text whose stripped form has fewer than 3
  characters is rejected; any other text is accepted exactly when its points reach 3, the
  points being +2 for a size ratio above 1.1, +1 for fewer than 100 characters, +1 for an
  upper-case or title-case text, +1 for a trimmed text ending in a colon, and +2 for a
  trimmed text that starts with one of the three heading patterns. A text with exactly 2
  points is rejected. This holds for every Unicode database and float arithmetic.
\<close>

theorem is_likely_heading_spec:
  assumes "0 < avg"
  shows "spec_stripped py txt (strip py txt) \<and>
         (\<forall>t. spec_stripped py txt t \<longrightarrow> t = strip py txt) \<and>
         (istitle py txt \<longleftrightarrow> spec_titlecase py txt) \<and>
         (length (strip py txt) < 3 \<longrightarrow> \<not> is_likely_heading py txt fs avg) \<and>
         (3 \<le> length (strip py txt) \<longrightarrow>
            is_likely_heading py txt fs avg = (3 \<le> spec_points py txt fs avg)) \<and>
         (spec_points py txt fs avg = 2 \<longrightarrow> \<not> is_likely_heading py txt fs avg)"
proof (intro conjI allI impI)
  show "spec_stripped py txt (strip py txt)"
    by (rule strip_is_stripped)
  show "t = strip py txt" if "spec_stripped py txt t" for t
    using that by (rule stripped_unique)
  show "istitle py txt \<longleftrightarrow> spec_titlecase py txt"
    by (rule istitle_spec)
  have score: "heading_score py txt fs avg = spec_points py txt fs avg"
    using assms by (rule heading_score_spec)
  show "\<not> is_likely_heading py txt fs avg" if "length (strip py txt) < 3"
    using that by (simp add: is_likely_heading_def)
  show "is_likely_heading py txt fs avg = (3 \<le> spec_points py txt fs avg)"
    if "3 \<le> length (strip py txt)"
  proof -
    have "txt \<noteq> []" using that by (auto simp: strip_def)
    with that show ?thesis by (simp add: is_likely_heading_def score)
  qed
  show "\<not> is_likely_heading py txt fs avg" if "spec_points py txt fs avg = 2"
    using that by (simp add: is_likely_heading_def score)
qed

lemma heading_score_examples:
  "heading_score latin1 (ustr ''1. Introduction'') 12 12 = 4"
  "heading_score latin1 (ustr ''Hello'') 12 12 = 2"
  "heading_score latin1 (ustr ''CHAPTER ONE'') 15 12 = 6"
  "heading_score latin1 (ustr ''Summary:'') 12 12 = 3"
  "heading_score latin1 (ustr ''plain words here'') 15 12 = 3"
  "heading_score latin1 (ustr ''plain words here'') 12 12 = 1"
  "heading_score latin1 ([201] @ ustr ''cole Data:'') 12 12 = 3"
  "heading_score latin1 (ustr ''1.'' @ [160] @ ustr ''Introduction'') 12 12 = 4"
  by code_simp+

lemma strip_examples:
  "strip latin1 (ustr ''1. Introduction'') = ustr ''1. Introduction''"
  "strip latin1 (ustr '' a '') = ustr ''a''"
  "strip latin1 (ustr ''Hello'') = ustr ''Hello''"
  "strip latin1 (ustr ''CHAPTER ONE'') = ustr ''CHAPTER ONE''"
  "strip latin1 (ustr ''Summary:'') = ustr ''Summary:''"
  "strip latin1 (ustr ''plain words here'') = ustr ''plain words here''"
  "strip latin1 ([160] @ ustr ''ab'' @ [133, 32]) = ustr ''ab''"
  by code_simp+

theorem is_likely_heading_spec_witness:
  "(0::real) < 12 \<and>
   is_likely_heading latin1 (ustr ''1. Introduction'') 12 12 \<and>
   spec_points latin1 (ustr ''1. Introduction'') 12 12 = 4 \<and>
   length (strip latin1 (ustr '' a '')) < 3 \<and>
   \<not> is_likely_heading latin1 (ustr '' a '') 30 12 \<and>
   spec_points latin1 (ustr ''Hello'') 12 12 = 2 \<and>
   \<not> is_likely_heading latin1 (ustr ''Hello'') 12 12 \<and>
   spec_points latin1 (ustr ''CHAPTER ONE'') 15 12 = 6 \<and>
   is_likely_heading latin1 (ustr ''CHAPTER ONE'') 15 12 \<and>
   spec_points latin1 (ustr ''Summary:'') 12 12 = 3 \<and>
   is_likely_heading latin1 (ustr ''Summary:'') 12 12 \<and>
   spec_points latin1 (ustr ''plain words here'') 15 12 = 3 \<and>
   is_likely_heading latin1 (ustr ''plain words here'') 15 12 \<and>
   spec_points latin1 (ustr ''plain words here'') 12 12 = 1 \<and>
   \<not> is_likely_heading latin1 (ustr ''plain words here'') 12 12"
proof -
  have pos: "(0::real) < 12" by simp
  note sc = heading_score_examples [unfolded heading_score_spec [OF pos]]
  have len:
    "3 \<le> length (strip latin1 (ustr ''1. Introduction''))"
    "length (strip latin1 (ustr '' a '')) < 3"
    "3 \<le> length (strip latin1 (ustr ''Hello''))"
    "3 \<le> length (strip latin1 (ustr ''CHAPTER ONE''))"
    "3 \<le> length (strip latin1 (ustr ''Summary:''))"
    "3 \<le> length (strip latin1 (ustr ''plain words here''))"
    by (simp_all add: strip_examples) (simp_all add: ustr_def)
  have i1: "is_likely_heading latin1 (ustr ''1. Introduction'') 12 12"
    using sc(1) len(1) is_likely_heading_spec [OF pos, of latin1 "ustr ''1. Introduction''" 12]
    by simp
  have i2: "\<not> is_likely_heading latin1 (ustr '' a '') 30 12"
    using len(2) is_likely_heading_spec [OF pos, of latin1 "ustr '' a ''" 30]
    by simp
  have i3: "\<not> is_likely_heading latin1 (ustr ''Hello'') 12 12"
    using sc(2) is_likely_heading_spec [OF pos, of latin1 "ustr ''Hello''" 12]
    by simp
  have i4: "is_likely_heading latin1 (ustr ''CHAPTER ONE'') 15 12"
    using sc(3) len(4) is_likely_heading_spec [OF pos, of latin1 "ustr ''CHAPTER ONE''" 15]
    by simp
  have i5: "is_likely_heading latin1 (ustr ''Summary:'') 12 12"
    using sc(4) len(5) is_likely_heading_spec [OF pos, of latin1 "ustr ''Summary:''" 12]
    by simp
  have i6: "is_likely_heading latin1 (ustr ''plain words here'') 15 12"
    using sc(5) len(6) is_likely_heading_spec [OF pos, of latin1 "ustr ''plain words here''" 15]
    by simp
  have i7: "\<not> is_likely_heading latin1 (ustr ''plain words here'') 12 12"
    using sc(6) len(6) is_likely_heading_spec [OF pos, of latin1 "ustr ''plain words here''" 12]
    by simp
  show ?thesis
    using pos sc(1-6) len(2) i1 i2 i3 i4 i5 i6 i7 by blast
qed

text \<open>
  Text outside ASCII follows the Unicode database. With E acute (code point 201) in front
  of \<^verbatim>\<open>cole Data:\<close> the text is title-case, and the no-break space (code point 160)
  after \<^verbatim>\<open>1.\<close> is white space for the first pattern.
\<close>

lemma latin1_headings:
  "is_likely_heading latin1 ([201] @ ustr ''cole Data:'') 12 12"
  "is_likely_heading latin1 (ustr ''1.'' @ [160] @ ustr ''Introduction'') 12 12"
  by code_simp+


section \<open>The ranker\<close>

lemma truncate_extend [simp]: "doc_section.truncate (doc_section.extend s m) = s"
  by (simp add: doc_section.truncate_def doc_section.extend_def)

lemma relevance_score_extend [simp]:
  "relevance_score (doc_section.extend s (scored_section.fields x)) = x"
  by (simp add: doc_section.extend_def scored_section.fields_def)

lemma semantic_keeps_self: "snd (calculate_semantic_relevance py self q t) = self"
  by (simp add: calculate_semantic_relevance_def split: option.splits)

lemma score_sections_eq:
  "score_sections py self q secs = (map (scored_copy py self q) secs, self)"
proof (induction secs)
  case Nil
  show ?case by simp
next
  case (Cons s secs)
  show ?case
  proof (cases "sentence_model self")
    case None
    then show ?thesis
      by (simp add: Cons scored_copy_def section_score_def)
  next
    case (Some m)
    obtain r where r:
      "calculate_semantic_relevance py self q (title s @ ustr '' '' @ content s) = (r, self)"
      using semantic_keeps_self [of py self q "title s @ ustr '' '' @ content s"]
      by (cases "calculate_semantic_relevance py self q (title s @ ustr '' '' @ content s)") simp
    with Some show ?thesis
      by (simp add: Cons scored_copy_def section_score_def)
  qed
qed

lemma py_sort_reverse_const:
  assumes "\<forall>x \<in> set xs. f x = c"
  shows "py_sort_reverse f xs = xs"
proof -
  have "\<forall>x \<in> set (py_sort_reverse f xs). f x = c"
    using assms by (simp add: py_sort_reverse_set)
  then have "filter (\<lambda>y. f y = c) (py_sort_reverse f xs) = py_sort_reverse f xs"
    by (simp add: filter_id_conv)
  moreover have "filter (\<lambda>y. f y = c) xs = xs"
    using assms by (simp add: filter_id_conv)
  ultimately show ?thesis
    using py_sort_reverse_stable [of f c xs] by simp
qed

lemma rank_eq:
  "rank_sections_by_relevance py self secs p j =
   (sort_reverse_floats relevance_score (map (scored_copy py self (p @ ustr '' '' @ j)) secs), self)"
proof (cases "secs = []")
  case True
  then show ?thesis
    by (simp add: rank_sections_by_relevance_def sort_reverse_floats_def py_sort_reverse_def)
next
  case False
  then show ?thesis
    by (simp add: rank_sections_by_relevance_def score_sections_eq Let_def)
qed

lemma truncate_scored_copy: "map doc_section.truncate (map (scored_copy py self q) secs) = secs"
  by (induction secs) (simp_all add: scored_copy_def)


text \<open>Without a NaN key the sort is the stable descending sort on the numbers.\<close>

lemma sort_reverse_floats_numbers:
  assumes "NaN \<notin> set (map f xs)"
  shows "sort_reverse_floats f xs = Some (py_sort_reverse (\<lambda>x. the_num (f x)) xs)"
  using assms by (simp add: sort_reverse_floats_def)










section \<open>Missing models and failing encoders\<close>

lemma extract_keywords_no_model: "extract_keywords py None t n = []"
  by (simp add: extract_keywords_def)

lemma keyword_relevance_no_model:
  assumes "nlp self = None"
  shows "calculate_keyword_relevance py self q t = 0"
  using assms by (simp add: calculate_keyword_relevance_def extract_keywords_no_model)

text \<open>
  Claim C10. When the spaCy model is not loaded, keyword extraction returns the empty list
  for every text, the keyword relevance of every query and text is 0, and the ranker under
  the keyword strategy (no sentence transformer) returns the sections in their input
  order, each with score 0.
\<close>

theorem no_language_model_degenerates:
  assumes "nlp self = None"
  shows "extract_keywords py (nlp self) t n = [] \<and>
         calculate_keyword_relevance py self q t = 0 \<and>
         (sentence_model self = None \<longrightarrow>
            map_option (map doc_section.truncate) (fst (rank_sections_by_relevance py self secs p j))
              = Some secs \<and>
            map_option (map relevance_score) (fst (rank_sections_by_relevance py self secs p j))
              = Some (replicate (length secs) (Num 0)))"
proof (intro conjI impI)
  show "extract_keywords py (nlp self) t n = []"
    using assms by (simp add: extract_keywords_no_model)
  show "calculate_keyword_relevance py self q t = 0"
    using assms by (rule keyword_relevance_no_model)
next
  assume sm: "sentence_model self = None"
  define scored where "scored = map (scored_copy py self (p @ ustr '' '' @ j)) secs"
  have zero: "relevance_score x = Num 0" if "x \<in> set scored" for x
    using assms that
    by (auto simp: scored_def scored_copy_def section_score_def sm keyword_relevance_no_model)
  then have nonan: "NaN \<notin> set (map relevance_score scored)"
    by auto
  have "\<forall>x \<in> set scored. the_num (relevance_score x) = 0"
    using zero by simp
  then have "py_sort_reverse (\<lambda>x. the_num (relevance_score x)) scored = scored"
    by (rule py_sort_reverse_const)
  then have out: "fst (rank_sections_by_relevance py self secs p j) = Some scored"
    using sort_reverse_floats_numbers [OF nonan] by (simp add: rank_eq scored_def)
  have "map doc_section.truncate scored = secs"
    unfolding scored_def by (rule truncate_scored_copy)
  then show "map_option (map doc_section.truncate) (fst (rank_sections_by_relevance py self secs p j))
          = Some secs"
    unfolding out by simp
  have "map relevance_score scored = replicate (length scored) (Num 0)"
    using zero by (simp add: map_replicate_const [symmetric])
  then show "map_option (map relevance_score) (fst (rank_sections_by_relevance py self secs p j))
          = Some (replicate (length secs) (Num 0))"
    unfolding out by (simp add: scored_def)
qed

theorem no_language_model_degenerates_witness:
  "nlp bare_extractor = None \<and> sentence_model bare_extractor = None \<and>
   extract_keywords latin1 (nlp bare_extractor) (ustr ''revenue growth'') 10 = [] \<and>
   calculate_keyword_relevance latin1 bare_extractor (ustr ''revenue growth'')
     (ustr ''revenue growth'') = 0 \<and>
   map_option (map doc_section.truncate) (fst (rank_sections_by_relevance latin1 bare_extractor
       [weather_section, financial_section] (ustr ''Financial Analyst'')
       (ustr ''Analyze revenue trends'')))
     = Some [weather_section, financial_section]"
proof -
  have n: "nlp bare_extractor = None" and s: "sentence_model bare_extractor = None"
    by (simp_all add: bare_extractor_def)
  show ?thesis
    using n s
      no_language_model_degenerates [OF n, of latin1 "ustr ''revenue growth''" 10
        "ustr ''revenue growth''" "[weather_section, financial_section]"
        "ustr ''Financial Analyst''" "ustr ''Analyze revenue trends''"]
    by blast
qed

text \<open>
  Claim C9. When the sentence transformer is loaded and encoding the query or the text
  fails, the semantic relevance call returns the keyword relevance of the same query and
  text, and the extractor is unchanged: it still holds the transformer. In the scoring
  loop every section is therefore scored by a semantic call on the unchanged extractor,
  whatever happened to the sections before it.
\<close>

theorem semantic_failure_falls_back_for_that_call:
  assumes "sentence_model self = Some model" and "model query = None \<or> model t = None"
  shows "fst (calculate_semantic_relevance py self query t)
           = Num (calculate_keyword_relevance py self query t) \<and>
         snd (calculate_semantic_relevance py self query t) = self \<and>
         sentence_model (snd (calculate_semantic_relevance py self query t)) = Some model \<and>
         score_sections py self query secs =
           (map (\<lambda>s. doc_section.extend s (scored_section.fields
                  (fst (calculate_semantic_relevance py self query
                          (title s @ ustr '' '' @ content s)))))
              secs, self)"
proof (intro conjI)
  show "fst (calculate_semantic_relevance py self query t)
          = Num (calculate_keyword_relevance py self query t)"
    using assms by (auto simp: calculate_semantic_relevance_def split: option.splits)
  show "snd (calculate_semantic_relevance py self query t) = self"
    by (rule semantic_keeps_self)
  then show "sentence_model (snd (calculate_semantic_relevance py self query t)) = Some model"
    using assms(1) by simp
  have "scored_copy py self query = (\<lambda>s. doc_section.extend s (scored_section.fields
                  (fst (calculate_semantic_relevance py self query
                          (title s @ ustr '' '' @ content s)))))"
    using assms(1) by (simp add: scored_copy_def section_score_def fun_eq_iff)
  then show "score_sections py self query secs =
           (map (\<lambda>s. doc_section.extend s (scored_section.fields
                  (fst (calculate_semantic_relevance py self query
                          (title s @ ustr '' '' @ content s)))))
              secs, self)"
    by (simp add: score_sections_eq)
qed

theorem semantic_failure_falls_back_for_that_call_witness:
  "sentence_model picky_extractor = Some picky_encoder \<and>
   picky_encoder (ustr ''Financial Overview Revenue analysis and growth metrics for the quarter'')
     = None \<and>
   calculate_semantic_relevance latin1 picky_extractor
     (ustr ''Financial Analyst Analyze revenue trends'')
     (ustr ''Financial Overview Revenue analysis and growth metrics for the quarter'')
   = (Num (2 / 11), picky_extractor) \<and>
   map relevance_score (fst (score_sections latin1 picky_extractor
       (ustr ''Financial Analyst Analyze revenue trends'') [financial_section, weather_section]))
   = [Num (2 / 11), Num 1]"
proof -
  let ?q = "ustr ''Financial Analyst Analyze revenue trends''"
  let ?fin = "ustr ''Financial Overview Revenue analysis and growth metrics for the quarter''"
  let ?wea = "ustr ''Weather Report Sunny skies and mild temperatures expected''"
  have m: "sentence_model picky_extractor = Some picky_encoder"
    by (simp add: picky_extractor_def)
  have f: "picky_encoder ?fin = None"
    by (simp add: picky_encoder_def ustr_def)
  have enc: "picky_encoder ?q = Some [3, 4]" "picky_encoder ?wea = Some [3, 4]"
    by (simp_all add: picky_encoder_def ustr_def)
  have k: "calculate_keyword_relevance latin1 picky_extractor ?q ?fin = 2 / 11"
    by code_simp
  have fin: "calculate_semantic_relevance latin1 picky_extractor ?q ?fin
             = (Num (2 / 11), picky_extractor)"
    using k semantic_failure_falls_back_for_that_call [OF m disjI2 [OF f], of latin1 ?q]
    by (simp add: prod_eq_iff)
  have n: "l2_norm [3, 4] * l2_norm [3, 4] = 25"
    by (simp add: l2_norm_def)
  have d: "dot [3, 4] [3, 4] = 25"
    by (simp add: dot_def)
  have wea: "fst (calculate_semantic_relevance latin1 picky_extractor ?q ?wea) = Num 1"
    by (simp only: calculate_semantic_relevance_def m enc option.simps n d) simp
  have combined:
    "title financial_section @ ustr '' '' @ content financial_section = ?fin"
    "title weather_section @ ustr '' '' @ content weather_section = ?wea"
    by (simp_all add: financial_section_def weather_section_def ustr_def)
  have "map relevance_score (fst (score_sections latin1 picky_extractor ?q
            [financial_section, weather_section]))
        = [fst (calculate_semantic_relevance latin1 picky_extractor ?q ?fin),
           fst (calculate_semantic_relevance latin1 picky_extractor ?q ?wea)]"
    using semantic_failure_falls_back_for_that_call [OF m disjI2 [OF f], of latin1 ?q
        "[financial_section, weather_section]"]
    by (simp add: combined)
  then show ?thesis
    using m f fin wea by simp
qed


section \<open>Keyword relevance\<close>

lemma first_occurrences_snoc:
  "first_occurrences (xs @ [x]) =
     (if x \<in> set xs then first_occurrences xs else first_occurrences xs @ [x])"
  by (simp add: first_occurrences_def)

lemma first_occurrences_set [simp]: "set (first_occurrences xs) = set xs"
  by (simp add: first_occurrences_def)

lemma first_occurrences_distinct [simp]: "distinct (first_occurrences xs)"
  by (simp add: first_occurrences_def)

lemma first_occurrences_length: "length (first_occurrences xs) = card (set xs)"
proof -
  have "card (set (first_occurrences xs)) = length (first_occurrences xs)"
    by (rule distinct_card) simp
  then show ?thesis by simp
qed

lemma counter_add_counts:
  assumes "distinct ks"
  shows "counter_add x (map (\<lambda>k. (k, c k)) ks) =
           (if x \<in> set ks then map (\<lambda>k. (k, if k = x then c k + 1 else c k)) ks
            else map (\<lambda>k. (k, c k)) ks @ [(x, 1)])"
  using assms
proof (induction ks)
  case Nil
  show ?case by simp
next
  case (Cons k ks)
  show ?case
  proof (cases "x = k")
    case True
    then have "x \<notin> set ks" using Cons.prems by simp
    then have "map (\<lambda>k. (k, if k = x then c k + 1 else c k)) ks = map (\<lambda>k. (k, c k)) ks"
      by (intro map_cong) auto
    with True show ?thesis by simp
  next
    case False
    with Cons show ?thesis by simp
  qed
qed

text \<open>The counter holds every distinct element once, in first-occurrence order, with its count.\<close>

lemma Counter_counts:
  "Counter xs = map (\<lambda>k. (k, count_list xs k)) (first_occurrences xs)"
proof (induction xs rule: rev_induct)
  case Nil
  show ?case by (simp add: Counter_def first_occurrences_def)
next
  case (snoc x xs)
  have step: "Counter (xs @ [x]) = counter_add x (Counter xs)"
    by (simp add: Counter_def)
  show ?case
  proof (cases "x \<in> set xs")
    case True
    have "map (\<lambda>k. (k, if k = x then count_list xs k + 1 else count_list xs k)) (first_occurrences xs)
          = map (\<lambda>k. (k, count_list (xs @ [x]) k)) (first_occurrences xs)"
      by (intro map_cong) auto
    with True show ?thesis
      by (simp add: step snoc counter_add_counts first_occurrences_snoc)
  next
    case False
    have "map (\<lambda>k. (k, count_list xs k)) (first_occurrences xs)
          = map (\<lambda>k. (k, count_list (xs @ [x]) k)) (first_occurrences xs)"
      using False by (intro map_cong) auto
    with False show ?thesis
      by (simp add: step snoc counter_add_counts first_occurrences_snoc count_list_0_iff)
  qed
qed

lemma py_sort_reverse_map: "py_sort_reverse f (map g xs) = map g (py_sort_reverse (\<lambda>x. f (g x)) xs)"
  by (simp add: py_sort_reverse_def rev_map sort_key_map_commute)

lemma most_common_keys: "map fst (most_common n (Counter xs)) = most_frequent n xs"
  by (simp add: most_common_def most_frequent_def Counter_counts py_sort_reverse_map
      take_map comp_def)

lemma extract_keywords_spec:
  "extract_keywords py (Some pipeline) t n =
     (if t = [] then [] else most_frequent n (token_keywords py (pipeline t)))"
  by (simp add: extract_keywords_def Let_def most_common_keys)

text \<open>
  What \<open>most_frequent\<close> selects: distinct elements of the list, as many as there are up to
  \<open>n\<close>, none of them less frequent than an element it leaves out.
\<close>

lemma most_frequent_subset: "set (most_frequent n xs) \<subseteq> set xs"
  using set_take_subset [of n "py_sort_reverse (count_list xs) (first_occurrences xs)"]
  by (simp add: most_frequent_def py_sort_reverse_set)

lemma most_frequent_distinct: "distinct (most_frequent n xs)"
  by (simp add: most_frequent_def py_sort_reverse_distinct)

lemma most_frequent_length: "length (most_frequent n xs) = min n (card (set xs))"
  by (simp add: most_frequent_def py_sort_reverse_length first_occurrences_length min.commute)

lemma most_frequent_all:
  assumes "card (set xs) \<le> n"
  shows "set (most_frequent n xs) = set xs"
proof -
  have "length (py_sort_reverse (count_list xs) (first_occurrences xs)) \<le> n"
    using assms by (simp add: py_sort_reverse_length first_occurrences_length)
  then show ?thesis
    by (simp add: most_frequent_def py_sort_reverse_set)
qed

lemma most_frequent_dominates:
  assumes a: "a \<in> set (most_frequent n xs)" and b: "b \<in> set xs" "b \<notin> set (most_frequent n xs)"
  shows "count_list xs b \<le> count_list xs a"
proof -
  define L where "L = py_sort_reverse (count_list xs) (first_occurrences xs)"
  have "sorted (rev (map (count_list xs) L))"
    unfolding L_def by (rule py_sort_reverse_sorted)
  then have "sorted_wrt (\<lambda>x y. count_list xs y \<le> count_list xs x) L"
    by (simp add: rev_map [symmetric] sorted_wrt_rev sorted_wrt_map)
  then have "sorted_wrt (\<lambda>x y. count_list xs y \<le> count_list xs x) (take n L @ drop n L)"
    by simp
  then have dom: "\<forall>x \<in> set (take n L). \<forall>y \<in> set (drop n L). count_list xs y \<le> count_list xs x"
    by (simp only: sorted_wrt_append) blast
  have "b \<in> set L"
    using b(1) by (simp add: L_def py_sort_reverse_set)
  then have "b \<in> set (take n L) \<union> set (drop n L)"
    by (metis append_take_drop_id set_append)
  then have "b \<in> set (drop n L)"
    using b(2) by (simp add: most_frequent_def L_def)
  moreover have "a \<in> set (take n L)"
    using a by (simp add: most_frequent_def L_def)
  ultimately show ?thesis
    using dom by blast
qed

lemma keyword_set_finite: "finite (keyword_set py self t)"
  by (simp add: keyword_set_def)

lemma keyword_relevance_eq:
  "calculate_keyword_relevance py self q t =
     (if q = [] \<or> t = [] \<or> keyword_set py self q = {} then 0
      else real (card (keyword_set py self q \<inter> keyword_set py self t))
           / real (card (keyword_set py self q \<union> keyword_set py self t)))"
proof -
  have "0 < card (keyword_set py self q \<union> keyword_set py self t)"
    if "keyword_set py self q \<noteq> {}"
    using that by (simp add: card_gt_0_iff keyword_set_finite)
  then show ?thesis
    by (auto simp: calculate_keyword_relevance_def keyword_set_def Let_def)
qed

text \<open>
  Claim C4, as amended. The keyword relevance of a query and a text is the Jaccard
  similarity of their keyword sets, and 0 when the query or the text is empty or the query
  has no keywords. It is 0 when either keyword set is empty and when the two sets are
  disjoint, and it is 1 when the two texts are identical, not empty, and yield at least
  one keyword. The keyword set of a text is empty without a language model; with one, it
  consists of the 10 most frequent keywords of the lower-cased text (the earlier keyword
  wins a tie), a keyword being the lower-cased lemma of a token that is alphabetic, no
  stop word, no punctuation and longer than 2 characters.
\<close>

theorem keyword_relevance_is_jaccard:
  "calculate_keyword_relevance py self q t =
     (if q = [] \<or> t = [] \<or> keyword_set py self q = {} then 0
      else real (card (keyword_set py self q \<inter> keyword_set py self t))
           / real (card (keyword_set py self q \<union> keyword_set py self t))) \<and>
   (keyword_set py self q = {} \<or> keyword_set py self t = {} \<longrightarrow>
      calculate_keyword_relevance py self q t = 0) \<and>
   (keyword_set py self q \<inter> keyword_set py self t = {} \<longrightarrow>
      calculate_keyword_relevance py self q t = 0) \<and>
   (q \<noteq> [] \<and> keyword_set py self q \<noteq> {} \<longrightarrow> calculate_keyword_relevance py self q q = 1) \<and>
   (nlp self = None \<longrightarrow> keyword_set py self t = {}) \<and>
   (\<forall>pipeline. nlp self = Some pipeline \<longrightarrow>
      keyword_set py self t =
        (if lower py t = [] then {}
         else set (most_frequent 10
                (map (\<lambda>k. lower py (token_lemma k))
                   (filter (\<lambda>k. is_alpha k \<and> \<not> is_stop k \<and> \<not> is_punct k
                                 \<and> 2 < length (token_text k))
                      (pipeline (lower py t)))))))"
proof (intro conjI impI allI)
  show "calculate_keyword_relevance py self q t =
     (if q = [] \<or> t = [] \<or> keyword_set py self q = {} then 0
      else real (card (keyword_set py self q \<inter> keyword_set py self t))
           / real (card (keyword_set py self q \<union> keyword_set py self t)))"
    by (rule keyword_relevance_eq)
  show "calculate_keyword_relevance py self q t = 0"
    if "keyword_set py self q = {} \<or> keyword_set py self t = {}"
    using that by (auto simp: keyword_relevance_eq)
  show "calculate_keyword_relevance py self q t = 0"
    if "keyword_set py self q \<inter> keyword_set py self t = {}"
    using that by (simp add: keyword_relevance_eq)
  show "calculate_keyword_relevance py self q q = 1"
    if ne: "q \<noteq> [] \<and> keyword_set py self q \<noteq> {}"
  proof -
    have "0 < card (keyword_set py self q)"
      using ne by (simp add: card_gt_0_iff keyword_set_finite)
    then show ?thesis
      using ne by (simp add: keyword_relevance_eq)
  qed
  show "keyword_set py self t = {}" if "nlp self = None"
    using that by (simp add: keyword_set_def extract_keywords_def)
  show "keyword_set py self t =
        (if lower py t = [] then {}
         else set (most_frequent 10
                (map (\<lambda>k. lower py (token_lemma k))
                   (filter (\<lambda>k. is_alpha k \<and> \<not> is_stop k \<and> \<not> is_punct k
                                 \<and> 2 < length (token_text k))
                      (pipeline (lower py t))))))"
    if "nlp self = Some pipeline" for pipeline
    using that by (simp add: keyword_set_def extract_keywords_spec token_keywords_def)
qed

theorem keyword_relevance_is_jaccard_witness:
  "ustr ''revenue growth'' \<noteq> [] \<and>
   keyword_set latin1 keyword_extractor (ustr ''revenue growth'') \<noteq> {} \<and>
   calculate_keyword_relevance latin1 keyword_extractor (ustr ''revenue growth'')
     (ustr ''revenue growth'') = 1 \<and>
   keyword_set latin1 keyword_extractor (ustr ''machine learning algorithms'')
     \<inter> keyword_set latin1 keyword_extractor (ustr ''The weather was sunny and bright today'') = {} \<and>
   calculate_keyword_relevance latin1 keyword_extractor (ustr ''machine learning algorithms'')
     (ustr ''The weather was sunny and bright today'') = 0 \<and>
   nlp keyword_extractor = Some demo_nlp \<and>
   keyword_set latin1 keyword_extractor (ustr ''Growth and REVENUE growth'')
     = {ustr ''growth'', ustr ''revenue''}"
proof -
  have n: "ustr ''revenue growth'' \<noteq> []" by (simp add: ustr_def)
  have a: "keyword_set latin1 keyword_extractor (ustr ''revenue growth'') \<noteq> {}"
    by code_simp
  have b: "keyword_set latin1 keyword_extractor (ustr ''machine learning algorithms'')
     \<inter> keyword_set latin1 keyword_extractor (ustr ''The weather was sunny and bright today'') = {}"
    by code_simp
  have m: "nlp keyword_extractor = Some demo_nlp"
    by (simp add: keyword_extractor_def)
  have l: "lower latin1 (ustr ''Growth and REVENUE growth'') \<noteq> []"
    by code_simp
  have f: "most_frequent 10
             (map (\<lambda>k. lower latin1 (token_lemma k))
                (filter (\<lambda>k. is_alpha k \<and> \<not> is_stop k \<and> \<not> is_punct k \<and> 2 < length (token_text k))
                   (demo_nlp (lower latin1 (ustr ''Growth and REVENUE growth'')))))
           = [ustr ''growth'', ustr ''revenue'']"
    by code_simp
  have c: "keyword_set latin1 keyword_extractor (ustr ''Growth and REVENUE growth'')
     = {ustr ''growth'', ustr ''revenue''}"
    using m l keyword_relevance_is_jaccard [of latin1 keyword_extractor "[]"
        "ustr ''Growth and REVENUE growth''"]
    by (simp add: f insert_commute)
  show ?thesis
    using n a b c m
      keyword_relevance_is_jaccard [of latin1 keyword_extractor "ustr ''revenue growth''"
        "ustr ''revenue growth''"]
      keyword_relevance_is_jaccard [of latin1 keyword_extractor
        "ustr ''machine learning algorithms''" "ustr ''The weather was sunny and bright today''"]
    by blast
qed

text \<open>
  The cut to 10 keywords shows in the score: a query of eleven keywords loses its last
  one, and a text that consists of that keyword scores 0.
\<close>

lemma eleventh_keyword_is_dropped:
  "calculate_keyword_relevance latin1 keyword_extractor
     (ustr ''alpha bravo charlie delta echoes foxtrot golfing hotel india juliet lambda'')
     (ustr ''lambda'') = 0"
  "calculate_keyword_relevance latin1 keyword_extractor
     (ustr ''alpha bravo charlie delta echoes foxtrot golfing hotel india lambda'')
     (ustr ''lambda'') = 1 / 10"
  by code_simp+

text \<open>
  Claim C4 as stated fails for identical non-empty texts without keywords: the text
  \<open>the\<close> consists of a stop word, and without a loaded language model no text has
  keywords. The score is then 0, not 1.
\<close>

theorem identical_texts_without_keywords_score_zero:
  "ustr ''the'' \<noteq> [] \<and>
   calculate_keyword_relevance latin1 keyword_extractor (ustr ''the'') (ustr ''the'') = 0 \<and>
   calculate_keyword_relevance latin1 keyword_extractor (ustr ''the'') (ustr ''the'') \<noteq> 1 \<and>
   calculate_keyword_relevance latin1 bare_extractor (ustr ''revenue growth'')
     (ustr ''revenue growth'') = 0"
  by code_simp


section \<open>The summarizer\<close>

lemma join_nonempty: "x \<noteq> [] \<Longrightarrow> join sep (x # xs) \<noteq> []"
  by (cases xs) simp_all

lemma relevant_sentences_long:
  assumes "s \<in> set (relevant_sentences py c p j)"
  shows "20 < length s"
  using assms
  by (auto simp: relevant_sentences_def Let_def split: if_splits)

lemma joined_sentences_empty:
  "join (ustr ''. '') (take 3 (relevant_sentences py c p j)) = []
   \<longleftrightarrow> relevant_sentences py c p j = []"
proof (cases "relevant_sentences py c p j")
  case Nil
  then show ?thesis by simp
next
  case (Cons x xs)
  then have "20 < length x"
    using relevant_sentences_long [of x py c p j] by simp
  then have "x \<noteq> []" by auto
  then have "join (ustr ''. '') (x # take 2 xs) \<noteq> []"
    by (rule join_nonempty)
  moreover have "take 3 (x # xs) = x # take 2 xs"
    by (simp add: numeral_3_eq_3 numeral_2_eq_2)
  ultimately show ?thesis
    using Cons by simp
qed

lemma refined_text_empty_iff:
  "create_refined_text py c p j = [] \<longleftrightarrow> c = [] \<or> relevant_sentences py c p j = []"
  using joined_sentences_empty [of py c p j]
  by (auto simp: create_refined_text_def Let_def ustr_def)

lemma relevant_sentences_empty_iff:
  "relevant_sentences py c p j = [] \<longleftrightarrow>
     (\<forall>s \<in> set (take 5 (split (of_char CHR ''.'') c)).
        20 < length (strip py s) \<longrightarrow>
          \<not> (py_in (lower py p) (lower py (strip py s))
             \<or> py_in (lower py j) (lower py (strip py s)))) \<and>
     (\<forall>s \<in> set (take 2 (split (of_char CHR ''.'') c)). length (strip py s) \<le> 20)"
  by (auto simp: relevant_sentences_def Let_def filter_empty_conv)

text \<open>
  Claim C6, as amended. The refined text has at most 300 characters, or exactly 303 when
  it was cut and ends in the ellipsis. It is empty when the content is empty, and
  otherwise exactly when no fragment is kept: none of the first five fragments is longer
  than 20 characters (trimmed) and contains the persona or the job, and neither of the
  first two fragments is longer than 20 characters.
\<close>

theorem refined_text_bounded:
  "(length (create_refined_text py c p j) \<le> 300 \<or>
      length (create_refined_text py c p j) = 303
        \<and> drop 300 (create_refined_text py c p j) = ustr ''...'') \<and>
   length (create_refined_text py c p j) \<le> 303 \<and>
   (c = [] \<longrightarrow> create_refined_text py c p j = []) \<and>
   (create_refined_text py c p j = [] \<longleftrightarrow> c = [] \<or> relevant_sentences py c p j = []) \<and>
   (relevant_sentences py c p j = [] \<longleftrightarrow>
     (\<forall>s \<in> set (take 5 (split (of_char CHR ''.'') c)).
        20 < length (strip py s) \<longrightarrow>
          \<not> (py_in (lower py p) (lower py (strip py s))
             \<or> py_in (lower py j) (lower py (strip py s)))) \<and>
     (\<forall>s \<in> set (take 2 (split (of_char CHR ''.'') c)). length (strip py s) \<le> 20))"
proof (intro conjI)
  show "length (create_refined_text py c p j) \<le> 300 \<or>
      length (create_refined_text py c p j) = 303
        \<and> drop 300 (create_refined_text py c p j) = ustr ''...''"
    by (simp add: create_refined_text_def Let_def ustr_def)
  then show "length (create_refined_text py c p j) \<le> 303"
    by auto
  show "c = [] \<longrightarrow> create_refined_text py c p j = []"
    by (simp add: create_refined_text_def)
  show "create_refined_text py c p j = [] \<longleftrightarrow> c = [] \<or> relevant_sentences py c p j = []"
    by (rule refined_text_empty_iff)
  show "relevant_sentences py c p j = [] \<longleftrightarrow>
     (\<forall>s \<in> set (take 5 (split (of_char CHR ''.'') c)).
        20 < length (strip py s) \<longrightarrow>
          \<not> (py_in (lower py p) (lower py (strip py s))
             \<or> py_in (lower py j) (lower py (strip py s)))) \<and>
     (\<forall>s \<in> set (take 2 (split (of_char CHR ''.'') c)). length (strip py s) \<le> 20)"
    by (rule relevant_sentences_empty_iff)
qed

theorem refined_text_bounded_witness:
  "length (create_refined_text latin1 (replicate 400 97) (ustr ''a'') (ustr ''b'')) = 303 \<and>
   drop 300 (create_refined_text latin1 (replicate 400 97) (ustr ''a'') (ustr ''b'')) = ustr ''...'' \<and>
   create_refined_text latin1 [] (ustr ''a'') (ustr ''b'') = [] \<and>
   relevant_sentences latin1 (ustr ''The revenue grew by fifteen percent last year. Fine.'')
       (ustr ''revenue'') (ustr ''growth'')
     = [ustr ''The revenue grew by fifteen percent last year''] \<and>
   create_refined_text latin1 (ustr ''The revenue grew by fifteen percent last year. Fine.'')
       (ustr ''revenue'') (ustr ''growth'')
     \<noteq> []"
proof -
  have a: "\<not> length (create_refined_text latin1 (replicate 400 97) (ustr ''a'') (ustr ''b'')) \<le> 300"
    by code_simp
  have b: "relevant_sentences latin1 (ustr ''The revenue grew by fifteen percent last year. Fine.'')
       (ustr ''revenue'') (ustr ''growth'')
     = [ustr ''The revenue grew by fifteen percent last year'']"
    by code_simp
  have c: "ustr ''The revenue grew by fifteen percent last year. Fine.'' \<noteq> []"
    by (simp add: ustr_def)
  show ?thesis
    using a b c
      refined_text_bounded [of latin1 "replicate 400 97" "ustr ''a''" "ustr ''b''"]
      refined_text_bounded [of latin1 "[]" "ustr ''a''" "ustr ''b''"]
      refined_text_bounded [of latin1 "ustr ''The revenue grew by fifteen percent last year. Fine.''"
        "ustr ''revenue''" "ustr ''growth''"]
    by (metis list.distinct(1))
qed

text \<open>
  Claim C6 as stated fails from right to left: a non-empty content without a fragment of
  more than 20 characters has the empty refined text.
\<close>

theorem short_content_has_empty_refined_text:
  "ustr ''Short text.'' \<noteq> [] \<and>
   create_refined_text latin1 (ustr ''Short text.'') (ustr ''analyst'') (ustr ''review'') = []"
  by code_simp

text \<open>
  Text outside ASCII follows the Unicode database. A content of 25 no-break spaces (code
  point 160) is white space and gives the empty text. A persona that starts with e acute
  (code point 233) is found in a fragment that has it as E acute (code point 201), since
  both are lower-cased.
\<close>

lemma latin1_refined_texts:
  "create_refined_text latin1 (replicate 25 160) (ustr ''a'') (ustr ''b'') = []"
  "create_refined_text latin1
     (ustr ''Les '' @ [201] @ ustr ''TUDIANTS sont nombreux. Intro.'')
     ([233] @ ustr ''tudiants'') (ustr ''xyz'')
   = ustr ''Les '' @ [201] @ ustr ''TUDIANTS sont nombreux''"
  by code_simp+


section \<open>Page segmentation\<close>

lemma py_in_iff: "py_in a b \<longleftrightarrow> (\<exists>p s. b = p @ a @ s)"
proof (induction b)
  case Nil
  show ?case by auto
next
  case (Cons c cs)
  have "(\<exists>p s. c # cs = p @ a @ s) \<longleftrightarrow> prefix a (c # cs) \<or> (\<exists>p s. cs = p @ a @ s)"
  proof
    assume "\<exists>p s. c # cs = p @ a @ s"
    then obtain p s where ps: "c # cs = p @ a @ s" by blast
    show "prefix a (c # cs) \<or> (\<exists>p s. cs = p @ a @ s)"
    proof (cases p)
      case Nil
      with ps show ?thesis by (auto simp: prefix_def)
    next
      case (Cons d p')
      with ps have "cs = p' @ a @ s" by simp
      then show ?thesis by blast
    qed
  next
    assume "prefix a (c # cs) \<or> (\<exists>p s. cs = p @ a @ s)"
    then show "\<exists>p s. c # cs = p @ a @ s"
    proof
      assume "prefix a (c # cs)"
      then obtain s where "c # cs = [] @ a @ s" by (auto simp: prefix_def)
      then show ?thesis by blast
    next
      assume "\<exists>p s. cs = p @ a @ s"
      then obtain p s where "cs = p @ a @ s" by blast
      then have "c # cs = (c # p) @ a @ s" by simp
      then show ?thesis by blast
    qed
  qed
  with Cons show ?case by simp
qed

lemma find_heading_line_none:
  "find_heading_line py h ls i = -1 \<longleftrightarrow> (\<forall>l \<in> set ls. \<not> py_in (lower py h) (lower py l))"
  by (induction ls arbitrary: i) auto

lemma find_heading_line_first:
  assumes "k < length ls" "py_in (lower py h) (lower py (ls ! k))"
    and "\<forall>m < k. \<not> py_in (lower py h) (lower py (ls ! m))"
  shows "find_heading_line py h ls i = int (i + k)"
  using assms
proof (induction ls arbitrary: i k)
  case Nil
  then show ?case by simp
next
  case (Cons l ls)
  show ?case
  proof (cases k)
    case 0
    with Cons.prems show ?thesis by simp
  next
    case (Suc k')
    have no: "\<not> py_in (lower py h) (lower py l)"
      using Cons.prems(3) Suc by auto
    have "find_heading_line py h ls (Suc i) = int (Suc i + k')"
    proof (rule Cons.IH)
      show "k' < length ls" using Cons.prems(1) Suc by simp
      show "py_in (lower py h) (lower py (ls ! k'))" using Cons.prems(2) Suc by simp
      show "\<forall>m < k'. \<not> py_in (lower py h) (lower py (ls ! m))"
        using Cons.prems(3) Suc by auto
    qed
    with no Suc show ?thesis by simp
  qed
qed

lemma slice_after:
  "slice ls (k + 1) (min (k + 1 + 10) (length ls)) = take 10 (drop (Suc k) ls)"
  by (simp add: slice_def drop_take min_def)

lemma find_headings_accepted:
  "find_headings_in_page py ft =
     map (\<lambda>item. \<lparr>ph_text = clean_text py (span_text item),
                   ph_font_size = span_font_size item, ph_level = ustr ''H2''\<rparr>)
       (accepted_spans py ft)"
  by (simp add: find_headings_in_page_def accepted_spans_def page_average_def Let_def)

lemma section_content_not_found:
  assumes "\<forall>l \<in> set (split 10 pt). \<not> py_in (lower py h) (lower py l)"
  shows "extract_section_content py pt h n = join (ustr '' '') (take 10 (split 10 pt))"
  using assms find_heading_line_none [of py h "split 10 pt" 0]
  by (simp add: extract_section_content_def Let_def)

lemma section_content_found:
  assumes "k < length (split 10 pt)"
    and "py_in (lower py h) (lower py (split 10 pt ! k))"
    and "\<forall>m < k. \<not> py_in (lower py h) (lower py (split 10 pt ! m))"
  shows "extract_section_content py pt h n
         = strip py (join (ustr '' '') (take 10 (drop (Suc k) (split 10 pt))))"
proof -
  have idx: "find_heading_line py h (split 10 pt) 0 = int k"
    using find_heading_line_first [OF assms, of 0] by simp
  have "slice (split 10 pt) (nat (int k) + 1)
          (min (nat (int k) + 1 + 10) (length (split 10 pt)))
        = take 10 (drop (Suc k) (split 10 pt))"
    using slice_after [of "split 10 pt" k] by simp
  then show ?thesis
    by (simp add: extract_section_content_def Let_def idx)
qed

lemma has_non_space: "strip py pt \<noteq> [] \<longleftrightarrow> list_ex (\<lambda>c. \<not> uc_isspace py c) pt"
  by (simp add: strip_empty_iff list_all_iff list_ex_iff)

text \<open>
  Claim C7. When no span of the page is accepted and the page text contains a character
  that is not white space, the page gives one section titled \<open>Page n\<close> (pages counted
  from 1) with the whole page text and level \<open>content\<close>. Otherwise it gives one section
  per accepted span, in order, titled with the cleaned text of the span and with level
  \<open>H2\<close> (none when nothing is accepted and the text is blank). The content of such a
  section is the first 10 lines of the page joined by spaces when no line contains the
  heading, both lower-cased; otherwise it is the ten lines that follow the first such
  line (fewer at the end of the page), joined by spaces and stripped. This holds for every
  Unicode database and float arithmetic.
\<close>

theorem page_sections_spec:
  "(accepted_spans py ft = [] \<and> list_ex (\<lambda>c. \<not> uc_isspace py c) pt \<longrightarrow>
      page_sections py fn n ft pt =
        [\<lparr>document = fn, section_page = n + 1, title = ustr ''Page '' @ str_of_nat (n + 1),
          content = pt, heading_level = ustr ''content''\<rparr>]) \<and>
   (\<not> (accepted_spans py ft = [] \<and> list_ex (\<lambda>c. \<not> uc_isspace py c) pt) \<longrightarrow>
      page_sections py fn n ft pt =
        map (\<lambda>item. \<lparr>document = fn, section_page = n + 1,
                      title = clean_text py (span_text item),
                      content = extract_section_content py pt (clean_text py (span_text item)) n,
                      heading_level = ustr ''H2''\<rparr>)
          (accepted_spans py ft)) \<and>
   ((\<forall>l \<in> set (split 10 pt). \<not> py_in (lower py h) (lower py l)) \<longrightarrow>
      extract_section_content py pt h n = join (ustr '' '') (take 10 (split 10 pt))) \<and>
   (\<forall>k. k < length (split 10 pt) \<and>
        py_in (lower py h) (lower py (split 10 pt ! k)) \<and>
        (\<forall>m < k. \<not> py_in (lower py h) (lower py (split 10 pt ! m))) \<longrightarrow>
      extract_section_content py pt h n
        = strip py (join (ustr '' '') (take 10 (drop (Suc k) (split 10 pt)))))"
proof (intro conjI impI allI)
  show "page_sections py fn n ft pt =
        [\<lparr>document = fn, section_page = n + 1, title = ustr ''Page '' @ str_of_nat (n + 1),
          content = pt, heading_level = ustr ''content''\<rparr>]"
    if "accepted_spans py ft = [] \<and> list_ex (\<lambda>c. \<not> uc_isspace py c) pt"
    using that has_non_space [of py pt]
    by (simp add: page_sections_def find_headings_accepted)
  show "page_sections py fn n ft pt =
        map (\<lambda>item. \<lparr>document = fn, section_page = n + 1,
                      title = clean_text py (span_text item),
                      content = extract_section_content py pt (clean_text py (span_text item)) n,
                      heading_level = ustr ''H2''\<rparr>)
          (accepted_spans py ft)"
    if "\<not> (accepted_spans py ft = [] \<and> list_ex (\<lambda>c. \<not> uc_isspace py c) pt)"
    using that has_non_space [of py pt]
    by (auto simp: page_sections_def find_headings_accepted Let_def comp_def)
  show "extract_section_content py pt h n = join (ustr '' '') (take 10 (split 10 pt))"
    if "\<forall>l \<in> set (split 10 pt). \<not> py_in (lower py h) (lower py l)"
    using that by (rule section_content_not_found)
  show "extract_section_content py pt h n
        = strip py (join (ustr '' '') (take 10 (drop (Suc k) (split 10 pt))))"
    if "k < length (split 10 pt) \<and>
        py_in (lower py h) (lower py (split 10 pt ! k)) \<and>
        (\<forall>m < k. \<not> py_in (lower py h) (lower py (split 10 pt ! m)))" for k
    using that section_content_found [of k pt py h n] by blast
qed

theorem page_sections_spec_witness:
  "accepted_spans latin1 [] = [] \<and> list_ex (\<lambda>c. \<not> uc_isspace latin1 c) (ustr ''plain body text'') \<and>
   page_sections latin1 (ustr ''a.pdf'') 0 [] (ustr ''plain body text'') =
     [\<lparr>document = ustr ''a.pdf'', section_page = 1, title = ustr ''Page 1'',
       content = ustr ''plain body text'', heading_level = ustr ''content''\<rparr>] \<and>
   accepted_spans latin1 demo_spans
     = [\<lparr>span_text = ustr ''1. Introduction'', span_font_size = 18\<rparr>] \<and>
   split 10 demo_page_text
     = [ustr ''1. Introduction'', ustr ''this page has'', ustr ''plain body text''] \<and>
   py_in (lower latin1 (ustr ''1. Introduction'')) (lower latin1 (split 10 demo_page_text ! 0)) \<and>
   page_sections latin1 (ustr ''a.pdf'') 0 demo_spans demo_page_text =
     [\<lparr>document = ustr ''a.pdf'', section_page = 1, title = ustr ''1. Introduction'',
       content = ustr ''this page has plain body text'', heading_level = ustr ''H2''\<rparr>]"
proof -
  have a: "accepted_spans latin1 [] = []" by (simp add: accepted_spans_def)
  have b: "list_ex (\<lambda>c. \<not> uc_isspace latin1 c) (ustr ''plain body text'')" by code_simp
  have p1: "ustr ''Page '' @ str_of_nat (0 + 1) = ustr ''Page 1''" by code_simp
  have c: "accepted_spans latin1 demo_spans
           = [\<lparr>span_text = ustr ''1. Introduction'', span_font_size = 18\<rparr>]"
    by code_simp
  have ct: "clean_text latin1 (ustr ''1. Introduction'') = ustr ''1. Introduction''" by code_simp
  have ls: "split 10 demo_page_text
            = [ustr ''1. Introduction'', ustr ''this page has'', ustr ''plain body text'']"
    by code_simp
  have hit: "py_in (lower latin1 (ustr ''1. Introduction''))
               (lower latin1 (split 10 demo_page_text ! 0))"
    by code_simp
  have st: "strip latin1 (join (ustr '' '') (take 10 (drop (Suc 0) (split 10 demo_page_text))))
            = ustr ''this page has plain body text''"
    by code_simp
  have first: "page_sections latin1 (ustr ''a.pdf'') 0 [] (ustr ''plain body text'') =
     [\<lparr>document = ustr ''a.pdf'', section_page = 1, title = ustr ''Page 1'',
       content = ustr ''plain body text'', heading_level = ustr ''content''\<rparr>]"
    using a b page_sections_spec [of latin1 "[]" "ustr ''plain body text''" "ustr ''a.pdf''" 0]
    by (simp add: p1 [simplified])
  have content: "extract_section_content latin1 demo_page_text (ustr ''1. Introduction'') 0
                 = ustr ''this page has plain body text''"
  proof -
    have len: "0 < length (split 10 demo_page_text)" by (simp add: ls)
    have "0 < length (split 10 demo_page_text) \<and>
          py_in (lower latin1 (ustr ''1. Introduction'')) (lower latin1 (split 10 demo_page_text ! 0)) \<and>
          (\<forall>m < 0. \<not> py_in (lower latin1 (ustr ''1. Introduction''))
                       (lower latin1 (split 10 demo_page_text ! m))) \<longrightarrow>
          extract_section_content latin1 demo_page_text (ustr ''1. Introduction'') 0
            = strip latin1 (join (ustr '' '') (take 10 (drop (Suc 0) (split 10 demo_page_text))))"
      using page_sections_spec [of latin1 demo_spans demo_page_text "ustr ''a.pdf''" 0
          "ustr ''1. Introduction''"]
      by blast
    with len hit have "extract_section_content latin1 demo_page_text (ustr ''1. Introduction'') 0
            = strip latin1 (join (ustr '' '') (take 10 (drop (Suc 0) (split 10 demo_page_text))))"
      by blast
    with st show ?thesis by simp
  qed
  have second: "page_sections latin1 (ustr ''a.pdf'') 0 demo_spans demo_page_text =
     [\<lparr>document = ustr ''a.pdf'', section_page = 1, title = ustr ''1. Introduction'',
       content = ustr ''this page has plain body text'', heading_level = ustr ''H2''\<rparr>]"
    using page_sections_spec [of latin1 demo_spans demo_page_text "ustr ''a.pdf''" 0]
    by (simp add: c ct content)
  show ?thesis
    using a b c ls hit first second by blast
qed

text \<open>
  Text outside ASCII follows the Unicode database: \<^verbatim>\<open>clean_text\<close> keeps an e acute
  (code point 233), which is a word character, and a page whose text is one no-break space
  (code point 160) gives no section.
\<close>

lemma clean_text_examples:
  "clean_text latin1 (ustr ''  Hello,   World #1  '') = ustr ''Hello, World  1''"
  "clean_text latin1 (ustr ''Caf'' @ [233] @ ustr '' Menu'') = ustr ''Caf'' @ [233] @ ustr '' Menu''"
  "clean_text latin1 (ustr ''a'' @ [9, 10] @ ustr ''b*c'') = ustr ''a b c''"
  by code_simp+

lemma blank_page_has_no_section:
  "page_sections latin1 (ustr ''a.pdf'') 0 [] [160] = []"
  by code_simp


end
